theory Spec2Isabelle
  imports Complex_Main "HOL-Library.AList" "HOL-Library.Char_ord" "HOL-Library.List_Lexorder"
begin

section \<open>Python values, documents and exceptions\<close>

text \<open>
  The documents of \<^verbatim>\<open>davai_tbx/expertise.py\<close> are Python dictionaries with string
  keys whose values are \<^verbatim>\<open>None\<close>, booleans, integers, strings, lists or nested
  dictionaries. A dictionary is an association list: \<open>map_of\<close> reads a key,
  \<open>AList.update\<close> is \<^verbatim>\<open>d[k] = v\<close> (in place when the key exists, appended otherwise,
  as Python keeps insertion order) and \<open>AList.delete\<close> is \<^verbatim>\<open>d.pop(k, None)\<close>.

  Modelled from the spec: the class \<^verbatim>\<open>TaskSummary\<close> of the three summaries is
  imported from \<^verbatim>\<open>davai_tbx/util.py\<close>, which is not among the sources. The spec
  describes it as an ordered key-to-value document, insertion order preserved, that can
  be serialized; it is taken to be a dictionary, and its \<^verbatim>\<open>dump\<close> to write a file
  and change nothing.
\<close>

datatype pyval =
    PNone
  | PBool bool
  | PInt int
  | PStr string
  | PList "pyval list"
  | PDict "(string \<times> pyval) list"

type_synonym doc = "(string \<times> pyval) list"

datatype error =
    UnboundLocalError
  | KeyError
  | AttributeError
  | TypeError
  | ValueError
  | ExpertError string
  | Raised string

definition and_then :: "error + 'a \<Rightarrow> ('a \<Rightarrow> error + 'b) \<Rightarrow> error + 'b" where
  "and_then m f = (case m of Inl e \<Rightarrow> Inl e | Inr x \<Rightarrow> f x)"

text \<open>\<^verbatim>\<open>d[k]\<close> on a document: a missing key raises KeyError.\<close>

definition getitem :: "doc \<Rightarrow> string \<Rightarrow> error + pyval" where
  "getitem d k = (case map_of d k of None \<Rightarrow> Inl KeyError | Some v \<Rightarrow> Inr v)"

text \<open>\<^verbatim>\<open>v[k]\<close> on any value with a string key: only a dictionary accepts it.\<close>

fun py_getitem :: "pyval \<Rightarrow> string \<Rightarrow> error + pyval" where
  "py_getitem (PDict d) k = getitem d k"
| "py_getitem _ k = Inl TypeError"

text \<open>\<^verbatim>\<open>v.get(k)\<close>: only a dictionary has the method; the result is \<open>None\<close> here when
  the key is absent (Python's default).\<close>

fun py_get :: "pyval \<Rightarrow> string \<Rightarrow> error + pyval option" where
  "py_get (PDict d) k = Inr (map_of d k)"
| "py_get _ k = Inl AttributeError"

text \<open>\<^verbatim>\<open>k in v\<close> for a string \<open>k\<close>: a key of a dictionary, an element of a list, a
  substring of a string; TypeError on the other values.\<close>

fun py_in :: "string \<Rightarrow> pyval \<Rightarrow> error + bool" where
  "py_in k (PDict d) = Inr (k \<in> fst ` set d)"
| "py_in k (PList xs) = Inr (PStr k \<in> set xs)"
| "py_in k (PStr s) = Inr (list_ex (\<lambda>i. take (length k) (drop i s) = k) [0..<Suc (length s)])"
| "py_in k _ = Inl TypeError"

text \<open>\<^verbatim>\<open>a + b\<close> as the code uses it, on strings.\<close>

fun py_add :: "pyval \<Rightarrow> pyval \<Rightarrow> error + pyval" where
  "py_add (PStr a) (PStr b) = Inr (PStr (a @ b))"
| "py_add (PList a) (PList b) = Inr (PList (a @ b))"
| "py_add (PInt a) (PInt b) = Inr (PInt (a + b))"
| "py_add _ _ = Inl TypeError"

text \<open>\<^verbatim>\<open>xs.index(v)\<close>: the first position holding \<open>v\<close>, ValueError when there is none.\<close>

fun index_from :: "nat \<Rightarrow> 'a list \<Rightarrow> 'a \<Rightarrow> nat option" where
  "index_from i [] v = None"
| "index_from i (x # xs) v = (if x = v then Some i else index_from (Suc i) xs v)"

definition py_index :: "pyval list \<Rightarrow> pyval \<Rightarrow> error + nat" where
  "py_index xs v = (case index_from 0 xs v of None \<Rightarrow> Inl ValueError | Some i \<Rightarrow> Inr i)"

section \<open>The expert board (davai\_tbx/expertise.py)\<close>

text \<open>
  An expert is used by the board through its \<^verbatim>\<open>kind\<close> and \<^verbatim>\<open>side_expert\<close> attributes
  and its \<^verbatim>\<open>parse()\<close> and \<^verbatim>\<open>compare(references)\<close> methods. The methods live in
  the expert classes, outside this module: they are the parameters \<open>parse_of\<close> and
  \<open>compare_of\<close> of the functions below, and may raise.
\<close>

record expert =
  kind :: string
  side_expert :: bool

text \<open>
  The board. \<open>calls\<close> is a log of the methods entered, in order; it is not a field of
  the Python object but records which methods ran.
\<close>

record board =
  experts :: "expert list"
  lead_expert :: "string option"
  task_summary :: doc
  consistency :: doc
  continuity :: doc
  calls :: "string list"

datatype summary_name = Consistency | Continuity

definition getattr :: "board \<Rightarrow> summary_name \<Rightarrow> doc" where
  "getattr b w = (case w of Consistency \<Rightarrow> consistency b | Continuity \<Rightarrow> continuity b)"

definition setattr :: "board \<Rightarrow> summary_name \<Rightarrow> doc \<Rightarrow> board" where
  "setattr b w d = (case w of Consistency \<Rightarrow> b\<lparr>consistency := d\<rparr>
                             | Continuity \<Rightarrow> b\<lparr>continuity := d\<rparr>)"

definition status_doc :: "string \<Rightarrow> string \<Rightarrow> string \<Rightarrow> pyval" where
  "status_doc sy sh tx =
     PDict [(''symbol'', PStr sy), (''short'', PStr sh), (''text'', PStr tx)]"

definition status_order :: "pyval list" where
  "status_order = [PStr ''-'', PStr ''0'', PStr ''?'', PStr ''OK'', PStr ''KO'', PStr ''!'', PStr ''+'']"

text \<open>
  The local variable \<^verbatim>\<open>status\<close> of \<^verbatim>\<open>_status\<close>. It is unbound until a branch
  assigns it, and a branch that assigns nothing leaves the value of the previous
  iteration. After \<^verbatim>\<open>comp_summary['comparisonStatus'] = status\<close> the variable and
  the summary entry are one object, so the later \<^verbatim>\<open>+=\<close> on the entry's text is seen
  through the variable too: that state is \<open>Shared\<close>.
\<close>

datatype stvar = Unbound | Bound pyval | Shared

text \<open>What the \<^verbatim>\<open>if/elif\<close> chain of one iteration decides.\<close>

datatype choice =
    Crashed pyval   \<comment> \<open>symbol \<^verbatim>\<open>'+'\<close>: take the document as status, pop every kind\<close>
  | Continue        \<comment> \<open>side expert: \<^verbatim>\<open>continue\<close>\<close>
  | Assign pyval    \<comment> \<open>a branch assigned \<^verbatim>\<open>status\<close>\<close>
  | Stale           \<comment> \<open>\<^verbatim>\<open>'Validated'\<close> neither True nor False: nothing assigned\<close>

text \<open>\<^verbatim>\<open>e.kind in comp_summary and f(comp_summary[e.kind])\<close>\<close>

definition kind_and :: "doc \<Rightarrow> expert \<Rightarrow> (pyval \<Rightarrow> error + bool) \<Rightarrow> error + bool" where
  "kind_and s e f =
     (if kind e \<in> fst ` set s then and_then (getitem s (kind e)) f else Inr False)"

definition choose_status :: "(pyval \<Rightarrow> string) \<Rightarrow> doc \<Rightarrow> expert \<Rightarrow> error + choice" where
  "choose_status fmt s e =
     and_then (kind_and s e (\<lambda>d. and_then (py_get d ''symbol'') (\<lambda>v. Inr (v = Some (PStr ''+''))))) (\<lambda>c1.
     if c1 then and_then (getitem s (kind e)) (\<lambda>d. Inr (Crashed d))
     else if side_expert e then Inr Continue
     else and_then (kind_and s e (py_in ''Validated'')) (\<lambda>c3.
     if c3 then
       and_then (getitem s (kind e)) (\<lambda>d.
       and_then (py_getitem d ''Validated'') (\<lambda>v.
       if v = PBool True then
         and_then (py_getitem d ''Validated means'') (\<lambda>m.
           Inr (Assign (status_doc ''OK'' ''OK'' (''Success: \"'' @ fmt m @ ''\"''))))
       else if v = PBool False then
         and_then (py_getitem d ''Validated means'') (\<lambda>m.
           Inr (Assign (status_doc ''KO'' ''KO'' (''Fail: \"'' @ fmt m @ ''\" is False''))))
       else Inr Stale))
     else and_then (kind_and s e (\<lambda>d. and_then (py_get d ''Comparison'') (\<lambda>v. Inr (v = Some (PStr ''Failed''))))) (\<lambda>c4.
     if c4 then
       Inr (Assign (status_doc ''!'' ''! Comp Issue !''
              ''To be checked: at least one technical problem occurred in comparison''))
     else and_then (kind_and s e (\<lambda>d.
            and_then (py_get d ''comparisonStatus'') (\<lambda>cs.
            and_then (py_get (case cs of None \<Rightarrow> PDict [] | Some c \<Rightarrow> c) ''symbol'') (\<lambda>v.
              Inr (v = Some (PStr ''0'')))))) (\<lambda>c5.
     if c5 then
       and_then (getitem s (kind e)) (\<lambda>d.
       and_then (py_get d ''comparisonStatus'') (\<lambda>cs.
         Inr (Assign (case cs of None \<Rightarrow> PNone | Some c \<Rightarrow> c))))
     else
       Inr (Assign (status_doc ''?'' ''? Unknown ?''
              ''To be checked: expert has not stated about Validation''))))))"

text \<open>\<^verbatim>\<open>for e in self.experts: comp_summary.pop(e.kind, None)\<close>\<close>

fun pop_kinds :: "expert list \<Rightarrow> doc \<Rightarrow> doc" where
  "pop_kinds [] s = s"
| "pop_kinds (e # es) s = pop_kinds es (AList.delete (kind e) s)"

text \<open>Reading the variable \<^verbatim>\<open>status\<close>.\<close>

definition read_status :: "doc \<Rightarrow> stvar \<Rightarrow> error + pyval" where
  "read_status s st =
     (case st of Unbound \<Rightarrow> Inl UnboundLocalError
               | Bound v \<Rightarrow> Inr v
               | Shared \<Rightarrow> getitem s ''comparisonStatus'')"

text \<open>The \<^verbatim>\<open># update status\<close> block at the end of an iteration.\<close>

definition update_status :: "doc \<Rightarrow> stvar \<Rightarrow> error + (doc \<times> stvar)" where
  "update_status s st =
     and_then (read_status s st) (\<lambda>status.
     and_then (py_getitem status ''symbol'') (\<lambda>sym.
     and_then (py_index status_order sym) (\<lambda>i.
     and_then (getitem s ''comparisonStatus'') (\<lambda>cs.
     and_then (py_getitem cs ''symbol'') (\<lambda>csym.
     and_then (py_index status_order csym) (\<lambda>j.
     if i \<ge> j then
       if sym = csym \<and> sym \<in> {PStr ''OK'', PStr ''KO''} then
         and_then (py_getitem cs ''text'') (\<lambda>t0.
         and_then (py_getitem status ''text'') (\<lambda>t1.
         and_then (py_add (PStr '' | '') t1) (\<lambda>t2.
         and_then (py_add t0 t2) (\<lambda>t3.
           case cs of
             PDict c \<Rightarrow> Inr (AList.update ''comparisonStatus''
                               (PDict (AList.update ''text'' t3 c)) s, st)
           | _ \<Rightarrow> Inl TypeError))))
       else Inr (AList.update ''comparisonStatus'' status s, Shared)
     else Inr (s, st)))))))"

text \<open>One iteration of \<^verbatim>\<open>for e in self.experts\<close>, and the loop.\<close>

definition status_step :: "(pyval \<Rightarrow> string) \<Rightarrow> expert list \<Rightarrow> expert \<Rightarrow> doc \<times> stvar
    \<Rightarrow> error + (doc \<times> stvar)" where
  "status_step fmt panel e x =
     (case x of (s, st) \<Rightarrow>
        and_then (choose_status fmt s e) (\<lambda>c.
          case c of
            Crashed d \<Rightarrow> update_status (pop_kinds panel s) (Bound d)
          | Continue \<Rightarrow> Inr (s, st)
          | Assign v \<Rightarrow> update_status s (Bound v)
          | Stale \<Rightarrow> update_status s st))"

fun status_loop :: "(pyval \<Rightarrow> string) \<Rightarrow> expert list \<Rightarrow> expert list \<Rightarrow> doc \<times> stvar
    \<Rightarrow> error + (doc \<times> stvar)" where
  "status_loop fmt panel [] x = Inr x"
| "status_loop fmt panel (e # es) x =
     and_then (status_step fmt panel e x) (status_loop fmt panel es)"

text \<open>\<^verbatim>\<open>ExpertBoard._notify_no_ref_resource\<close>\<close>

definition ExpertBoard_notify_no_ref_resource :: "board \<Rightarrow> summary_name \<Rightarrow> board" where
  "ExpertBoard_notify_no_ref_resource b w =
     (let b = b\<lparr>calls := calls b @ [''_notify_no_ref_resource'']\<rparr>;
          comp_summary = getattr b w
      in setattr b w (AList.update ''comparisonStatus''
           (status_doc ''0'' ''- No ref -'' ''No reference to be compared to'') comp_summary))"

text \<open>\<^verbatim>\<open>ExpertBoard._status\<close>. \<open>fmt\<close> is \<^verbatim>\<open>'{}'.format\<close> on one value.\<close>

definition ExpertBoard_status :: "(pyval \<Rightarrow> string) \<Rightarrow> board \<Rightarrow> summary_name
    \<Rightarrow> error + board" where
  "ExpertBoard_status fmt b w =
     (let b = b\<lparr>calls := calls b @ [''_status'']\<rparr>;
          comp_summary = getattr b w
      in if length comp_summary > 0 then
           and_then (status_loop fmt (experts b) (experts b)
                       (AList.update ''comparisonStatus''
                          (status_doc ''-'' ''- No expert -'' ''No expert available'') comp_summary,
                        Unbound)) (\<lambda>(s, st).
             let potential_experts = map kind (filter (\<lambda>e. \<not> side_expert e) (experts b));
                 lead = (if lead_expert b = None \<and> length potential_experts = 1
                         then Some (hd potential_experts) else lead_expert b);
                 s = (case lead of None \<Rightarrow> s
                                 | Some l \<Rightarrow> AList.update ''leadExpert'' (PStr l) s)
             in Inr ((setattr b w s)\<lparr>lead_expert := lead\<rparr>))
         else Inr (ExpertBoard_notify_no_ref_resource b w))"

text \<open>
  A reference resource \<^verbatim>\<open>{'rh': ..., 'ref_is': {'task': ...}}\<close>. An argument of
  \<^verbatim>\<open>process\<close> and \<^verbatim>\<open>compare\<close> is \<^verbatim>\<open>None\<close> or a list of them; \<open>truthy\<close> is
  Python's truth value of such an argument.
\<close>

record 'rh reference =
  rh :: 'rh
  ref_is_task :: string

definition truthy :: "'a list option \<Rightarrow> bool" where
  "truthy r = (case r of None \<Rightarrow> False | Some xs \<Rightarrow> xs \<noteq> [])"

definition refs_of :: "'a list option \<Rightarrow> 'a list" where
  "refs_of r = (case r of None \<Rightarrow> [] | Some xs \<Rightarrow> xs)"

text \<open>\<^verbatim>\<open>ExpertBoard.dump\<close> writes the three documents to files; the board is unchanged.\<close>

definition ExpertBoard_dump :: "board \<Rightarrow> board" where
  "ExpertBoard_dump b = b\<lparr>calls := calls b @ [''dump'']\<rparr>"

text \<open>\<^verbatim>\<open>ExpertBoard.parse\<close>\<close>

fun parse_loop :: "(expert \<Rightarrow> error + pyval) \<Rightarrow> expert list \<Rightarrow> doc \<Rightarrow> error + doc" where
  "parse_loop parse_of [] ts = Inr ts"
| "parse_loop parse_of (e # es) ts =
     and_then (parse_of e) (\<lambda>v. parse_loop parse_of es (AList.update (kind e) v ts))"

definition ExpertBoard_parse :: "(expert \<Rightarrow> error + pyval) \<Rightarrow> board \<Rightarrow> error + board" where
  "ExpertBoard_parse parse_of b =
     (let b = b\<lparr>calls := calls b @ [''parse'']\<rparr>
      in and_then (parse_loop parse_of (experts b) (task_summary b)) (\<lambda>ts.
           Inr (b\<lparr>task_summary := ts\<rparr>)))"

text \<open>\<^verbatim>\<open>ExpertBoard.compare\<close>\<close>

fun compare_loop :: "(expert \<Rightarrow> 'rh list \<Rightarrow> error + pyval) \<Rightarrow> 'rh reference list option
    \<Rightarrow> 'rh reference list option \<Rightarrow> expert list \<Rightarrow> doc \<times> doc \<Rightarrow> error + (doc \<times> doc)" where
  "compare_loop compare_of consistency_refs continuity_refs [] x = Inr x"
| "compare_loop compare_of consistency_refs continuity_refs (e # es) x =
     (case x of (cons, cont) \<Rightarrow>
        and_then (if truthy consistency_refs
                  then and_then (compare_of e (map rh (refs_of consistency_refs))) (\<lambda>v.
                         Inr (AList.update (kind e) v cons))
                  else Inr cons) (\<lambda>cons.
        and_then (if truthy continuity_refs
                  then and_then (compare_of e (map rh (refs_of continuity_refs))) (\<lambda>v.
                         Inr (AList.update (kind e) v cont))
                  else Inr cont) (\<lambda>cont.
        compare_loop compare_of consistency_refs continuity_refs es (cons, cont))))"

definition ExpertBoard_compare :: "(pyval \<Rightarrow> string) \<Rightarrow> (expert \<Rightarrow> 'rh list \<Rightarrow> error + pyval)
    \<Rightarrow> board \<Rightarrow> 'rh reference list option \<Rightarrow> 'rh reference list option \<Rightarrow> error + board" where
  "ExpertBoard_compare fmt compare_of b consistency_refs continuity_refs =
     (let b = b\<lparr>calls := calls b @ [''compare'']\<rparr>
      in and_then (if truthy consistency_refs then
                     (let ref_task = map ref_is_task (refs_of consistency_refs)
                      in if card (set ref_task) > 1
                         then Inl (ExpertError
                                ''Consistency reference resources must all come from the same 'task'.'')
                         else Inr (b\<lparr>consistency :=
                                AList.update ''referenceTask'' (PStr (hd ref_task)) (consistency b)\<rparr>))
                   else Inr b) (\<lambda>b.
         and_then (compare_loop compare_of consistency_refs continuity_refs (experts b)
                     (consistency b, continuity b)) (\<lambda>(cons, cont).
         and_then (ExpertBoard_status fmt (b\<lparr>consistency := cons, continuity := cont\<rparr>) Consistency) (\<lambda>b.
         ExpertBoard_status fmt b Continuity))))"

text \<open>\<^verbatim>\<open>ExpertBoard.process\<close>. \<open>now\<close> is
  \<^verbatim>\<open>date.utcnow().isoformat().split('.')[0]\<close>.\<close>

definition ExpertBoard_process :: "(pyval \<Rightarrow> string) \<Rightarrow> (expert \<Rightarrow> error + pyval)
    \<Rightarrow> (expert \<Rightarrow> 'rh list \<Rightarrow> error + pyval) \<Rightarrow> string
    \<Rightarrow> board \<Rightarrow> 'rh reference list option \<Rightarrow> 'rh reference list option \<Rightarrow> error + board" where
  "ExpertBoard_process fmt parse_of compare_of now b consistency_refs continuity_refs =
     (let b = b\<lparr>calls := calls b @ [''process'']\<rparr>
      in and_then (ExpertBoard_parse parse_of b) (\<lambda>b.
         and_then (if truthy consistency_refs \<or> truthy continuity_refs
                   then ExpertBoard_compare fmt compare_of b consistency_refs continuity_refs
                   else Inr (ExpertBoard_notify_no_ref_resource
                               (ExpertBoard_notify_no_ref_resource b Consistency) Continuity)) (\<lambda>b.
         Inr (ExpertBoard_dump (b\<lparr>task_summary :=
                AList.update ''Updated'' (PStr now) (task_summary b)\<rparr>)))))"

text \<open>
  The concrete examples below format with a function that is exact on the values they
  use (strings, \<^verbatim>\<open>None\<close> and booleans).
\<close>

definition str_format :: "pyval \<Rightarrow> string" where
  "str_format v = (case v of PStr s \<Rightarrow> s | PNone \<Rightarrow> ''None'' | PBool True \<Rightarrow> ''True''
                          | PBool False \<Rightarrow> ''False'' | _ \<Rightarrow> [])"

subsection \<open>Reading the result of the aggregation\<close>

text \<open>
  The rank of a status document in \<^verbatim>\<open>status_order\<close>, the rank and the symbol of the
  \<^verbatim>\<open>comparisonStatus\<close> entry of a summary, and whether the document stored for an
  expert carries the symbol \<^verbatim>\<open>'+'\<close>, as the first test of the loop of
  \<^verbatim>\<open>_status\<close> reads it.
\<close>

definition sym_rank :: "pyval \<Rightarrow> nat option" where
  "sym_rank v = (case v of
                   PDict c \<Rightarrow> (case map_of c ''symbol'' of
                                 Some sy \<Rightarrow> index_from 0 status_order sy | None \<Rightarrow> None)
                 | _ \<Rightarrow> None)"

definition cs_rank :: "doc \<Rightarrow> nat option" where
  "cs_rank s = (case map_of s ''comparisonStatus'' of
                  Some (PDict c) \<Rightarrow> (case map_of c ''symbol'' of
                                       Some sy \<Rightarrow> index_from 0 status_order sy | None \<Rightarrow> None)
                | _ \<Rightarrow> None)"

definition comparison_symbol :: "doc \<Rightarrow> pyval option" where
  "comparison_symbol s = (case map_of s ''comparisonStatus'' of
                            Some (PDict c) \<Rightarrow> map_of c ''symbol'' | _ \<Rightarrow> None)"

definition carries_plus :: "doc \<Rightarrow> expert \<Rightarrow> bool" where
  "carries_plus s e = (case map_of s (kind e) of
                         Some (PDict d) \<Rightarrow> map_of d ''symbol'' = Some (PStr ''+'')
                       | _ \<Rightarrow> False)"

text \<open>
  The outcome of a call seen from outside: the exception, or the entry that the
  summary \<open>w\<close> of the returned board holds under a key.
\<close>

definition final_entry :: "summary_name \<Rightarrow> string \<Rightarrow> error + board \<Rightarrow> error + pyval option" where
  "final_entry w k r = (case r of Inl err \<Rightarrow> Inl err
                                | Inr b \<Rightarrow> Inr (map_of (getattr b w) k))"

definition final_status :: "summary_name \<Rightarrow> error + board \<Rightarrow> error + pyval option" where
  "final_status w r = final_entry w ''comparisonStatus'' r"

text \<open>The result of a loop with one key removed from the summary.\<close>

definition drop_key :: "string \<Rightarrow> error + (doc \<times> stvar) \<Rightarrow> error + (doc \<times> stvar)" where
  "drop_key k r = (case r of Inl err \<Rightarrow> Inl err | Inr (s, st) \<Rightarrow> Inr (AList.delete k s, st))"

definition no_ref_status :: pyval where
  "no_ref_status = status_doc ''0'' ''- No ref -'' ''No reference to be compared to''"

subsection \<open>Well-formed documents\<close>

text \<open>
  A result document that \<^verbatim>\<open>_status\<close> can read without raising: a dictionary whose
  \<^verbatim>\<open>'Validated'\<close>, when present, is True or False and comes with
  \<^verbatim>\<open>'Validated means'\<close>, and whose \<^verbatim>\<open>'comparisonStatus'\<close>, when present, is a
  dictionary. A summary is well-formed for a panel when the document of every expert
  that has one is. A status document is valid when its symbol is one of
  \<^verbatim>\<open>status_order\<close> and, for \<^verbatim>\<open>'OK'\<close> and \<^verbatim>\<open>'KO'\<close>, its text is a string.
\<close>

definition well_formed_doc :: "pyval \<Rightarrow> bool" where
  "well_formed_doc v =
     (case v of
        PDict d \<Rightarrow>
          (case map_of d ''Validated'' of
             None \<Rightarrow> True
           | Some x \<Rightarrow> (x = PBool True \<or> x = PBool False) \<and> map_of d ''Validated means'' \<noteq> None)
          \<and> (case map_of d ''comparisonStatus'' of
               None \<Rightarrow> True | Some (PDict c) \<Rightarrow> True | Some _ \<Rightarrow> False)
      | _ \<Rightarrow> False)"

definition well_formed_summary :: "expert list \<Rightarrow> doc \<Rightarrow> bool" where
  "well_formed_summary es s =
     list_all (\<lambda>e. case map_of s (kind e) of None \<Rightarrow> True | Some v \<Rightarrow> well_formed_doc v) es"

definition valid_status :: "pyval \<Rightarrow> bool" where
  "valid_status v \<longleftrightarrow>
     (\<exists>c sy. v = PDict c \<and> map_of c ''symbol'' = Some (PStr sy) \<and> PStr sy \<in> set status_order
         \<and> (sy = ''OK'' \<or> sy = ''KO'' \<longrightarrow> (\<exists>t. map_of c ''text'' = Some (PStr t))))"

subsection \<open>Example panels\<close>

definition ex_board :: "expert list \<Rightarrow> doc \<Rightarrow> board" where
  "ex_board es s = \<lparr>experts = es, lead_expert = None, task_summary = [],
                    consistency = s, continuity = [], calls = []\<rparr>"

definition norms_expert :: expert where
  "norms_expert = \<lparr>kind = ''norms'', side_expert = False\<rparr>"

definition fields_expert :: expert where
  "fields_expert = \<lparr>kind = ''fields_in_file'', side_expert = False\<rparr>"

definition setup_expert :: expert where
  "setup_expert = \<lparr>kind = ''setup'', side_expert = True\<rparr>"

definition validated_doc :: "bool \<Rightarrow> string \<Rightarrow> pyval" where
  "validated_doc v means = PDict [(''Validated'', PBool v), (''Validated means'', PStr means)]"

definition crashed_doc :: "string \<Rightarrow> pyval" where
  "crashed_doc tx = status_doc ''+'' ''+ Ref crashed +'' tx"

section \<open>Field comparison (ial\_expertise/experts/fields.py)\<close>

text \<open>
  What \<^verbatim>\<open>compare_2_fields\<close> reads of an epygram field: whether it is a
  \<^verbatim>\<open>MiscField\<close>, whether it is spectral, its validity and geometry descriptors, and
  its \<^verbatim>\<open>data\<close> array (shape, dtype and the values, flattened). Floating-point
  values are modelled as real numbers: NaN and the infinities are not represented, and
  the arrays are taken without mask.
\<close>

datatype dtype = Floating | Integer | Boolean

record fld =
  is_MiscField :: bool
  spectral :: bool
  validity :: pyval
  geometry :: pyval
  data_shape :: "nat list"
  data_dtype :: dtype
  data :: "real list"

text \<open>
  An opened resource: \<^verbatim>\<open>listfields()\<close> and \<^verbatim>\<open>readfield(fid)\<close>, which may raise. A
  field identifier is a Python value: a string for some formats, a dictionary for
  others.
\<close>

record resource =
  listfields :: "pyval list"
  readfield :: "pyval \<Rightarrow> error + fld"

text \<open>
  The epygram methods called on fields, which this repository does not define:
  \<^verbatim>\<open>fld.sp2gp()\<close>, \<^verbatim>\<open>a.recursive_diff(b)\<close> on validities and geometries, and
  \<^verbatim>\<open>tfld.normalized_comparison(rfld)\<close>, which returns the dictionary of normalized
  differences and whether the masks are common, or raises.
\<close>

record epygram =
  sp2gp :: "fld \<Rightarrow> fld"
  recursive_diff :: "pyval \<Rightarrow> pyval \<Rightarrow> pyval"
  normalized_comparison :: "fld \<Rightarrow> fld \<Rightarrow> error + ((string \<times> real) list \<times> bool)"

text \<open>
  Python's conversions to text: \<^verbatim>\<open>str(v)\<close> of a value, \<^verbatim>\<open>str(e)\<close> of an exception,
  \<^verbatim>\<open>'{:%}'.format(x)\<close> and \<^verbatim>\<open>'{}'.format(x)\<close> of a float.
\<close>

record formatting =
  str_value :: "pyval \<Rightarrow> string"
  str_exception :: "error \<Rightarrow> string"
  format_percent :: "real \<Rightarrow> string"
  format_float :: "real \<Rightarrow> string"

text \<open>Python's truth value of a value.\<close>

fun py_truth :: "pyval \<Rightarrow> bool" where
  "py_truth PNone = False"
| "py_truth (PBool b) = b"
| "py_truth (PInt i) = (i \<noteq> 0)"
| "py_truth (PStr s) = (s \<noteq> [])"
| "py_truth (PList xs) = (xs \<noteq> [])"
| "py_truth (PDict d) = (d \<noteq> [])"

text \<open>\<^verbatim>\<open>max(xs)\<close>: ValueError on an empty list.\<close>

fun py_max :: "real list \<Rightarrow> error + real" where
  "py_max [] = Inl ValueError"
| "py_max (x # xs) = Inr (fold max xs x)"

text \<open>
  The per-field status dictionary, one optional component per key
  (\<open>None\<close>: the key is absent).
\<close>

datatype normalized_diff = Not_possible string | Diff "(string \<times> real) list"

record field_status =
  Validity_diff :: "pyval option"
  Geometry_diff :: "pyval option"
  Normalized_data_diff :: "normalized_diff option"
  Data_bit_repro :: "bool option"
  Mask_is_common :: "bool option"
  Validated :: "bool option"
  Error_during_comparison :: "string option"

definition empty_status :: field_status where
  "empty_status = \<lparr>Validity_diff = None, Geometry_diff = None, Normalized_data_diff = None,
                    Data_bit_repro = None, Mask_is_common = None, Validated = None,
                    Error_during_comparison = None\<rparr>"

text \<open>\<^verbatim>\<open>d.get(key, default)\<close> on such a component.\<close>

definition get_default :: "'a option \<Rightarrow> 'a \<Rightarrow> 'a" where
  "get_default v dflt = (case v of None \<Rightarrow> dflt | Some x \<Rightarrow> x)"

text \<open>
  \<^verbatim>\<open>isinstance(tfld.data.dtype, (int, float))\<close>: the dtype of an array is a
  \<^verbatim>\<open>numpy.dtype\<close> object, which is an instance of neither \<^verbatim>\<open>int\<close> nor \<^verbatim>\<open>float\<close>.
\<close>

definition isinstance_int_float :: "dtype \<Rightarrow> bool" where
  "isinstance_int_float dt = False"

text \<open>
  The bit-reproducibility test of \<^verbatim>\<open>compare_2_fields\<close>, on two arrays of the same
  shape. \<open>EPSILON\<close> is the constant imported from \<^verbatim>\<open>thresholds.py\<close>.
\<close>

definition data_bit_repro :: "real \<Rightarrow> fld \<Rightarrow> fld \<Rightarrow> bool" where
  "data_bit_repro EPSILON tfld rfld =
     (if isinstance_int_float (data_dtype tfld)
      then list_all (\<lambda>(a, b). a - b \<le> EPSILON) (zip (data tfld) (data rfld))
      else list_all (\<lambda>(a, b). a = b) (zip (data tfld) (data rfld)))"

text \<open>
  The \<^verbatim>\<open># data\<close> part of \<^verbatim>\<open>compare_2_fields\<close>, from the status and the
  \<^verbatim>\<open>validated\<close> flag that the metadata part leaves, to the returned pair.
\<close>

definition compare_data :: "real \<Rightarrow> epygram \<Rightarrow> fld \<Rightarrow> fld \<Rightarrow> field_status \<Rightarrow> bool \<Rightarrow> real
    \<Rightarrow> bool \<Rightarrow> real \<Rightarrow> error + (field_status \<times> real)" where
  "compare_data EPSILON ep tfld rfld status validated max_normalized_diff
      validate_if_bit_repro_only normalized_validation_threshold =
     (if data_shape tfld \<noteq> data_shape rfld then
        Inr (status\<lparr>Normalized_data_diff :=
                       Some (Not_possible ''Comparison not possible: dimensions differ''),
                     Data_bit_repro := Some False,
                     Validated := Some False\<rparr>,
             max_normalized_diff)
      else
        let status = status\<lparr>Data_bit_repro := Some (data_bit_repro EPSILON tfld rfld)\<rparr>
        in if \<not> data_bit_repro EPSILON tfld rfld then
             and_then (normalized_comparison ep tfld rfld) (\<lambda>(data_diff, common_mask).
             let status = status\<lparr>Normalized_data_diff := Some (Diff data_diff),
                                 Mask_is_common := Some common_mask\<rparr>;
                 validated = (if \<not> common_mask then False else validated)
             in and_then (py_max (map (\<lambda>v. \<bar>v\<bar>) (map snd data_diff))) (\<lambda>loc_max.
             let max_normalized_diff =
                   (if loc_max > max_normalized_diff then loc_max else max_normalized_diff);
                 validated =
                   (if validate_if_bit_repro_only then False
                    else if list_ex (\<lambda>v. \<bar>v\<bar> \<ge> normalized_validation_threshold) (map snd data_diff)
                         then False else validated)
             in Inr (status\<lparr>Validated := Some validated\<rparr>, max_normalized_diff)))
           else Inr (status\<lparr>Validated := Some validated\<rparr>, max_normalized_diff))"

text \<open>
  \<^verbatim>\<open>compare_2_fields\<close>: the two reads, the conversion of spectral fields, the
  \<^verbatim>\<open># metadata\<close> part, then the data part.
\<close>

definition compare_2_fields :: "real \<Rightarrow> epygram \<Rightarrow> resource \<Rightarrow> resource \<Rightarrow> pyval \<Rightarrow> real
    \<Rightarrow> bool \<Rightarrow> bool \<Rightarrow> real \<Rightarrow> error + (field_status \<times> real)" where
  "compare_2_fields EPSILON ep test_resource ref_resource fid max_normalized_diff
      ignore_meta validate_if_bit_repro_only normalized_validation_threshold =
     and_then (readfield test_resource fid) (\<lambda>tfld0.
     and_then (readfield ref_resource fid) (\<lambda>rfld0.
     let tfld = (if \<not> is_MiscField tfld0 \<and> spectral tfld0 then sp2gp ep tfld0 else tfld0);
         rfld = (if \<not> is_MiscField tfld0 \<and> spectral rfld0 then sp2gp ep rfld0 else rfld0);
         status = empty_status;
         validated = True;
         status = (if \<not> is_MiscField tfld0 \<and> \<not> ignore_meta
                   then status\<lparr>Validity_diff := Some (recursive_diff ep (validity tfld) (validity rfld)),
                               Geometry_diff := Some (recursive_diff ep (geometry tfld) (geometry rfld))\<rparr>
                   else status);
         validated = (if \<not> is_MiscField tfld0 \<and> \<not> ignore_meta
                        \<and> (py_truth (get_default (Validity_diff status) PNone)
                           \<or> py_truth (get_default (Geometry_diff status) PNone))
                      then False else validated)
     in compare_data EPSILON ep tfld rfld status validated max_normalized_diff
          validate_if_bit_repro_only normalized_validation_threshold))"

text \<open>\<^verbatim>\<open>ignore_field\<close>\<close>

definition ignore_field :: "pyval \<Rightarrow> bool" where
  "ignore_field fid =
     (case fid of PStr s \<Rightarrow> take (length ''SFX._FBUF_'') s = ''SFX._FBUF_'' | _ \<Rightarrow> False)"

text \<open>
  \<^verbatim>\<open>sorted(intersection)\<close>, reached when the first element is a string: strings are
  ordered by their characters; a list that mixes strings with other values raises
  (in Python 3).
\<close>

definition is_string :: "pyval \<Rightarrow> bool" where
  "is_string v = (case v of PStr s \<Rightarrow> True | _ \<Rightarrow> False)"

definition sorted_fids :: "pyval list \<Rightarrow> error + pyval list" where
  "sorted_fids xs =
     (if list_all is_string xs
      then Inr (map PStr (sort (map (\<lambda>v. case v of PStr s \<Rightarrow> s | _ \<Rightarrow> []) xs)))
      else Inl TypeError)"

text \<open>
  The body of \<^verbatim>\<open>for f in intersection\<close> in \<^verbatim>\<open>compare_2_files\<close>, on the state
  (\<^verbatim>\<open>fields_status\<close>, \<^verbatim>\<open>max_normalized_diff\<close>, \<^verbatim>\<open>uncompared_fields\<close>). The call
  passes no \<^verbatim>\<open>validate_if_bit_repro_only\<close>, so \<^verbatim>\<open>compare_2_fields\<close> runs with its
  default, True.
\<close>

type_synonym loop_state = "(string \<times> field_status) list \<times> real \<times> pyval list"

fun fields_loop :: "real \<Rightarrow> epygram \<Rightarrow> formatting \<Rightarrow> resource \<Rightarrow> resource \<Rightarrow> bool \<Rightarrow> bool
    \<Rightarrow> real \<Rightarrow> bool \<Rightarrow> pyval list \<Rightarrow> loop_state \<Rightarrow> error + loop_state" where
  "fields_loop EPSILON ep fm t r ignore_meta hide_bit_repro_fields
      normalized_validation_threshold fatal_exceptions [] x = Inr x"
| "fields_loop EPSILON ep fm t r ignore_meta hide_bit_repro_fields
      normalized_validation_threshold fatal_exceptions (f # fs) x =
     (case x of (fields_status, max_normalized_diff, uncompared_fields) \<Rightarrow>
      if ignore_field f then
        fields_loop EPSILON ep fm t r ignore_meta hide_bit_repro_fields
          normalized_validation_threshold fatal_exceptions fs x
      else
        and_then
          (case compare_2_fields EPSILON ep t r f max_normalized_diff ignore_meta True
                  normalized_validation_threshold of
             Inr (status, m) \<Rightarrow> Inr (status, m, uncompared_fields)
           | Inl e \<Rightarrow>
               if fatal_exceptions then Inl e
               else Inr (empty_status\<lparr>Error_during_comparison := Some (str_exception fm e)\<rparr>,
                         max_normalized_diff, uncompared_fields @ [f]))
          (\<lambda>(status, max_normalized_diff, uncompared_fields).
             fields_loop EPSILON ep fm t r ignore_meta hide_bit_repro_fields
               normalized_validation_threshold fatal_exceptions fs
               (if \<not> get_default (Data_bit_repro status) False \<or> \<not> hide_bit_repro_fields
                then AList.update (str_value fm f) status fields_status
                else fields_status,
                max_normalized_diff, uncompared_fields)))"

text \<open>The document returned by \<^verbatim>\<open>compare_2_files\<close>.\<close>

record file_comparison =
  comp_Validated :: bool
  comp_Validated_means :: string
  Bit_reproducible :: bool
  Common_fields_differences :: "(string \<times> field_status) list"
  Max_normalized_diff :: string
  mainMetrics :: string
  New_fields :: "pyval list option"
  Lost_fields :: "pyval list option"
  Unable_to_compare_fields :: "pyval list option"

definition none_if_empty :: "'a list \<Rightarrow> 'a list option" where
  "none_if_empty xs = (if length xs > 0 then Some xs else None)"

text \<open>\<^verbatim>\<open>compare_2_files\<close>, on the two opened resources.\<close>

definition compare_2_files :: "real \<Rightarrow> epygram \<Rightarrow> formatting \<Rightarrow> resource \<Rightarrow> resource
    \<Rightarrow> bool \<Rightarrow> bool \<Rightarrow> bool \<Rightarrow> bool \<Rightarrow> real \<Rightarrow> bool \<Rightarrow> error + file_comparison" where
  "compare_2_files EPSILON ep fm t r ignore_meta ignore_orphan_fields hide_bit_repro_fields
      validate_if_bit_repro_only normalized_validation_threshold fatal_exceptions =
     (let test_list = listfields t;
          ref_list = listfields r;
          new_fields = filter (\<lambda>f. f \<notin> set ref_list) test_list;
          lost_fields = filter (\<lambda>f. f \<notin> set test_list) ref_list;
          intersection = filter (\<lambda>f. f \<in> set ref_list) test_list
      in and_then (if length intersection > 0 \<and> is_string (hd intersection)
                   then sorted_fids intersection else Inr intersection) (\<lambda>intersection.
         and_then (fields_loop EPSILON ep fm t r ignore_meta hide_bit_repro_fields
                     normalized_validation_threshold fatal_exceptions intersection ([], 0, []))
           (\<lambda>(fields_status, max_normalized_diff, uncompared_fields).
         let validated = list_all (\<lambda>status. get_default (Validated status) False)
                           (map snd fields_status);
             means = (if validate_if_bit_repro_only
                      then ''All fields have identical shape/mask than reference, and data is bit-repro''
                      else ''All fields have identical shape/mask than reference,'' @ '' '' @
                           ''and normalized errors lower than '' @
                             format_float fm normalized_validation_threshold);
             validated = (if \<not> ignore_orphan_fields \<and> length (new_fields @ lost_fields) > 0
                          then False else validated);
             means = (if \<not> ignore_orphan_fields
                      then means @ '', and no field is orphan on one or the other side.''
                      else means)
         in Inr \<lparr>comp_Validated = validated,
                 comp_Validated_means = means,
                 Bit_reproducible =
                   list_all (\<lambda>status. get_default (Data_bit_repro status) False
                                      \<and> get_default (Validity_diff status) PNone = PNone
                                      \<and> get_default (Geometry_diff status) PNone = PNone)
                            (map snd fields_status),
                 Common_fields_differences = fields_status,
                 Max_normalized_diff = format_percent fm max_normalized_diff,
                 mainMetrics = ''Max normalized diff'',
                 New_fields = none_if_empty new_fields,
                 Lost_fields = none_if_empty lost_fields,
                 Unable_to_compare_fields = none_if_empty uncompared_fields\<rparr>)))"

subsection \<open>The common fields, and example files\<close>

text \<open>
  The list that the loop of \<^verbatim>\<open>compare_2_files\<close> runs over: the fields of the test
  file that the reference file has too, sorted when the first one is a string.
\<close>

definition common_fields :: "resource \<Rightarrow> resource \<Rightarrow> error + pyval list" where
  "common_fields t r =
     (let intersection = filter (\<lambda>f. f \<in> set (listfields r)) (listfields t)
      in if length intersection > 0 \<and> is_string (hd intersection)
         then sorted_fids intersection else Inr intersection)"

text \<open>
  Example fields and files. The example \<open>epygram\<close> takes the normalized differences
  from a function given with it; the example formatting renders floats as fixed
  placeholders, which no example reads.
\<close>

definition ex_fld :: "dtype \<Rightarrow> pyval \<Rightarrow> nat list \<Rightarrow> real list \<Rightarrow> fld" where
  "ex_fld dt v sh xs = \<lparr>is_MiscField = False, spectral = False, validity = v,
                         geometry = PStr ''grid'', data_shape = sh, data_dtype = dt, data = xs\<rparr>"

definition ex_resource :: "(pyval \<times> fld) list \<Rightarrow> resource" where
  "ex_resource fs = \<lparr>listfields = map fst fs,
                     readfield = (\<lambda>fid. case map_of fs fid of
                                           None \<Rightarrow> Inl (Raised ''no such field'')
                                         | Some f \<Rightarrow> Inr f)\<rparr>"

definition ex_epygram :: "(fld \<Rightarrow> fld \<Rightarrow> (string \<times> real) list) \<Rightarrow> epygram" where
  "ex_epygram nc = \<lparr>sp2gp = (\<lambda>f. f\<lparr>spectral := False\<rparr>),
                    recursive_diff = (\<lambda>a b. if a = b then PNone else PDict [(''test'', a), (''ref'', b)]),
                    normalized_comparison = (\<lambda>t r. Inr (nc t r, True))\<rparr>"

definition ex_formatting :: formatting where
  "ex_formatting = \<lparr>str_value = str_format,
                     str_exception = (\<lambda>e. case e of Raised m \<Rightarrow> m | ExpertError m \<Rightarrow> m | _ \<Rightarrow> []),
                     format_percent = (\<lambda>x. ''<percent>''),
                     format_float = (\<lambda>x. ''<float>'')\<rparr>"

section \<open>Status aggregation: lemmas\<close>

subsection \<open>The error monad and the dictionary operations\<close>

lemma and_then_Inr: "and_then m f = Inr y \<longleftrightarrow> (\<exists>x. m = Inr x \<and> f x = Inr y)"
  by (cases m) (simp_all add: and_then_def)

lemma getitem_Inr: "getitem d k = Inr v \<longleftrightarrow> map_of d k = Some v"
  by (simp add: getitem_def split: option.splits)

lemma py_getitem_Inr: "py_getitem x k = Inr v \<longleftrightarrow> (\<exists>d. x = PDict d \<and> map_of d k = Some v)"
  by (cases x) (simp_all add: getitem_Inr)

lemma py_get_Inr: "py_get x k = Inr v \<longleftrightarrow> (\<exists>d. x = PDict d \<and> map_of d k = v)"
  by (cases x) auto

lemma py_index_Inr: "py_index xs v = Inr i \<longleftrightarrow> index_from 0 xs v = Some i"
  by (simp add: py_index_def split: option.splits)

lemma index_from_status_order:
  "index_from 0 status_order v = Some i \<Longrightarrow> i \<le> 6"
  by (simp add: status_order_def split: if_splits)



lemma update_status_cases:
  assumes "update_status s st = Inr (s', st')"
  obtains
    (keep) status i j where "read_status s st = Inr status" "sym_rank status = Some i"
      "cs_rank s = Some j" "i < j" "s' = s" "st' = st"
  | (gather) status c d sy t0 t1 t3 where "read_status s st = Inr status"
      "map_of s ''comparisonStatus'' = Some (PDict c)" "status = PDict d"
      "map_of c ''symbol'' = Some (PStr sy)" "map_of d ''symbol'' = Some (PStr sy)"
      "sy = ''OK'' \<or> sy = ''KO''"
      "map_of c ''text'' = Some t0" "map_of d ''text'' = Some (PStr t1)"
      "py_add t0 (PStr ('' | '' @ t1)) = Inr t3"
      "s' = AList.update ''comparisonStatus'' (PDict (AList.update ''text'' t3 c)) s" "st' = st"
  | (assign) status i j where "read_status s st = Inr status" "sym_rank status = Some i"
      "cs_rank s = Some j" "j \<le> i" "s' = AList.update ''comparisonStatus'' status s" "st' = Shared"
proof -
  from assms obtain status sy i cs csy j where
    a: "read_status s st = Inr status" "py_getitem status ''symbol'' = Inr sy"
       "py_index status_order sy = Inr i" "getitem s ''comparisonStatus'' = Inr cs"
       "py_getitem cs ''symbol'' = Inr csy" "py_index status_order csy = Inr j"
    and r: "(if j \<le> i then
             if sy = csy \<and> sy \<in> {PStr ''OK'', PStr ''KO''} then
               and_then (py_getitem cs ''text'') (\<lambda>t0.
               and_then (py_getitem status ''text'') (\<lambda>t1.
               and_then (py_add (PStr '' | '') t1) (\<lambda>t2.
               and_then (py_add t0 t2) (\<lambda>t3.
                 case cs of
                   PDict c \<Rightarrow> Inr (AList.update ''comparisonStatus''
                               (PDict (AList.update ''text'' t3 c)) s, st)
                 | _ \<Rightarrow> Inl TypeError))))
             else Inr (AList.update ''comparisonStatus'' status s, Shared)
           else Inr (s, st)) = Inr (s', st')"
    unfolding update_status_def and_then_Inr by blast
  from a obtain d c where dc: "status = PDict d" "map_of d ''symbol'' = Some sy"
      "cs = PDict c" "map_of c ''symbol'' = Some csy" "map_of s ''comparisonStatus'' = Some cs"
    by (auto simp: py_getitem_Inr getitem_Inr)
  have ri: "sym_rank status = Some i" and rj: "cs_rank s = Some j"
    using a dc by (simp_all add: sym_rank_def cs_rank_def py_index_Inr)
  show thesis
  proof (cases "j \<le> i")
    case False
    with r have "s' = s" "st' = st" by simp_all
    with False a ri rj show thesis by (intro keep[of status i j]) auto
  next
    case True
    show thesis
    proof (cases "sy = csy \<and> sy \<in> {PStr ''OK'', PStr ''KO''}")
      case False
      with True r have "s' = AList.update ''comparisonStatus'' status s" "st' = Shared"
        by (auto split: if_splits)
      with True a ri rj show thesis by (intro assign[of status i j]) auto
    next
      case g: True
      with True r obtain t0 t1 t2 t3 where
        t: "py_getitem cs ''text'' = Inr t0" "py_getitem status ''text'' = Inr t1"
           "py_add (PStr '' | '') t1 = Inr t2" "py_add t0 t2 = Inr t3"
           "s' = AList.update ''comparisonStatus'' (PDict (AList.update ''text'' t3 c)) s" "st' = st"
        using dc by (auto simp: and_then_Inr split: if_splits)
      from t(3) obtain u1 where u1: "t1 = PStr u1" "t2 = PStr ('' | '' @ u1)"
        by (cases t1) auto
      from g obtain x where x: "sy = PStr x" "x = ''OK'' \<or> x = ''KO''" "csy = PStr x" by auto
      show thesis
        using a dc t u1 x by (intro gather[of status c d x t0 u1 t3]) (auto simp: py_getitem_Inr getitem_Inr)
    qed
  qed
qed

lemma in_keys_iff: "k \<in> fst ` set s \<longleftrightarrow> map_of s k \<noteq> None"
  by (simp add: map_of_eq_None_iff)

lemma choose_status_cong:
  assumes "map_of s1 (kind e) = map_of s2 (kind e)"
  shows "choose_status fmt s1 e = choose_status fmt s2 e"
proof -
  have g: "getitem s1 (kind e) = getitem s2 (kind e)"
    using assms by (simp add: getitem_def)
  have k: "kind_and s1 e = kind_and s2 e"
    using assms g by (simp add: kind_and_def fun_eq_iff in_keys_iff)
  show ?thesis
    unfolding choose_status_def k g by (rule refl)
qed

lemma choose_status_absent:
  "map_of s (kind e) = None \<Longrightarrow>
   choose_status fmt s e = Inr (if side_expert e then Continue
     else Assign (status_doc ''?'' ''? Unknown ?'' ''To be checked: expert has not stated about Validation''))"
  by (simp add: choose_status_def kind_and_def in_keys_iff and_then_def)

lemma choose_status_plus:
  "map_of s (kind e) = Some (PDict d) \<Longrightarrow> map_of d ''symbol'' = Some (PStr ''+'') \<Longrightarrow>
   choose_status fmt s e = Inr (Crashed (PDict d))"
  by (simp add: choose_status_def kind_and_def in_keys_iff and_then_def getitem_def)

lemma choose_status_side:
  "map_of s (kind e) = Some (PDict d) \<Longrightarrow> map_of d ''symbol'' \<noteq> Some (PStr ''+'') \<Longrightarrow> side_expert e \<Longrightarrow>
   choose_status fmt s e = Inr Continue"
  by (simp add: choose_status_def kind_and_def in_keys_iff and_then_def getitem_def)

lemma choose_status_Crashed:
  "choose_status fmt s e = Inr (Crashed v) \<Longrightarrow> carries_plus s e \<and> map_of s (kind e) = Some v"
  by (auto simp add: choose_status_def kind_and_def in_keys_iff and_then_Inr getitem_Inr py_get_Inr py_getitem_Inr carries_plus_def
      split: if_splits)

lemma choose_status_KO:
  "map_of s (kind e) = Some (PDict d) \<Longrightarrow> map_of d ''symbol'' \<noteq> Some (PStr ''+'') \<Longrightarrow> \<not> side_expert e \<Longrightarrow>
   map_of d ''Validated'' = Some (PBool False) \<Longrightarrow> choose_status fmt s e = Inr c \<Longrightarrow>
   \<exists>t. c = Assign (status_doc ''KO'' ''KO'' t)"
  by (auto simp add: choose_status_def kind_and_def in_keys_iff and_then_Inr getitem_Inr py_getitem_Inr weak_map_of_SomeI
      dest!: map_of_SomeD split: if_splits)

subsection \<open>The update block\<close>

lemma update_status_frame:
  assumes "update_status s st = Inr (s', st')"
  shows "k \<noteq> ''comparisonStatus'' \<Longrightarrow> map_of s' k = map_of s k"
  using assms by (cases rule: update_status_cases) (simp_all add: update_conv')

lemma cs_rank_update:
  "cs_rank (AList.update ''comparisonStatus'' v s) = sym_rank v"
  by (simp add: cs_rank_def sym_rank_def update_conv' split: pyval.splits)

lemma update_status_rank:
  assumes "update_status s st = Inr (s', st')"
  shows "\<exists>status i j j'. read_status s st = Inr status \<and> sym_rank status = Some i \<and>
           cs_rank s = Some j \<and> cs_rank s' = Some j' \<and> j \<le> j' \<and> i \<le> j'"
  using assms
proof (cases rule: update_status_cases)
  case (keep status i j)
  then show ?thesis by auto
next
  case (gather status c d sy t0 t1 t3)
  have "sym_rank status = index_from 0 status_order (PStr sy)"
    using gather by (simp add: sym_rank_def)
  moreover have "cs_rank s = index_from 0 status_order (PStr sy)"
    using gather by (simp add: cs_rank_def)
  moreover have "cs_rank s' = index_from 0 status_order (PStr sy)"
    using gather by (simp add: cs_rank_update sym_rank_def update_conv')
  moreover obtain i where "index_from 0 status_order (PStr sy) = Some i"
    using gather(6) by (auto simp: status_order_def)
  ultimately show ?thesis using gather(1) by auto
next
  case (assign status i j)
  then show ?thesis by (auto simp: cs_rank_update)
qed

lemma map_of_pop_kinds:
  "map_of (pop_kinds es s) k = (if k \<in> kind ` set es then None else map_of s k)"
  by (induction es arbitrary: s) (auto simp: delete_conv')

lemma cs_rank_pop_kinds:
  "''comparisonStatus'' \<notin> kind ` set es \<Longrightarrow> cs_rank (pop_kinds es s) = cs_rank s"
  by (simp add: cs_rank_def map_of_pop_kinds)

lemma carries_plus_cong:
  "map_of s1 (kind e) = map_of s2 (kind e) \<Longrightarrow> carries_plus s1 e = carries_plus s2 e"
  by (simp add: carries_plus_def)

lemma status_step_no_plus:
  assumes "status_step fmt panel x (s, st) = Inr (s', st')" "\<not> carries_plus s x"
  shows "(s' = s \<and> st' = st) \<or> (\<exists>st0. update_status s st0 = Inr (s', st'))"
proof -
  from assms(1) obtain c where c: "choose_status fmt s x = Inr c"
    and r: "(case c of Crashed d \<Rightarrow> update_status (pop_kinds panel s) (Bound d)
             | Continue \<Rightarrow> Inr (s, st) | Assign v \<Rightarrow> update_status s (Bound v)
             | Stale \<Rightarrow> update_status s st) = Inr (s', st')"
    by (auto simp: status_step_def and_then_Inr)
  show ?thesis
  proof (cases c)
    case (Crashed d)
    with c assms(2) show ?thesis by (auto dest: choose_status_Crashed)
  qed (use r in auto)
qed

lemma status_step_frame:
  assumes "status_step fmt panel x (s, st) = Inr (s', st')" "\<not> carries_plus s x"
    "k \<noteq> ''comparisonStatus''"
  shows "map_of s' k = map_of s k"
  using status_step_no_plus[OF assms(1,2)] assms(3) by (auto dest: update_status_frame)

lemma status_step_after_plus:
  assumes "status_step fmt panel x (s, st) = Inr (s', st')"
    "map_of s (kind x) = None" "cs_rank s = Some 6"
  shows "s' = s"
proof (cases "side_expert x")
  case True
  with assms show ?thesis
    by (simp add: status_step_def choose_status_absent and_then_def)
next
  case False
  let ?q = "status_doc ''?'' ''? Unknown ?'' ''To be checked: expert has not stated about Validation''"
  from False assms have u: "update_status s (Bound ?q) = Inr (s', st')"
    by (simp add: status_step_def choose_status_absent and_then_def)
  have q: "sym_rank ?q = Some 2"
    by (simp add: sym_rank_def status_doc_def status_order_def)
  from u show ?thesis
  proof (cases rule: update_status_cases)
    case (keep status i j)
    then show ?thesis by simp
  next
    case (gather status c d sy t0 t1 t3)
    then show ?thesis by (auto simp: read_status_def status_doc_def)
  next
    case (assign status i j)
    then show ?thesis using q assms(3) by (auto simp: read_status_def)
  qed
qed

lemma status_loop_after_plus:
  assumes "status_loop fmt panel es (s, st) = Inr (s', st')"
    "\<forall>x\<in>set es. map_of s (kind x) = None" "cs_rank s = Some 6"
  shows "s' = s"
  using assms
proof (induction es arbitrary: s st)
  case Nil
  then show ?case by simp
next
  case (Cons x es)
  from Cons.prems(1) obtain s1 st1 where
    1: "status_step fmt panel x (s, st) = Inr (s1, st1)"
    and 2: "status_loop fmt panel es (s1, st1) = Inr (s', st')"
    by (auto simp: and_then_Inr)
  have "s1 = s" using status_step_after_plus[OF 1] Cons.prems by simp
  with 2 Cons show ?case by auto
qed

lemma status_step_plus:
  assumes "status_step fmt panel x (s, st) = Inr (s', st')" "carries_plus s x"
  shows "map_of s' ''comparisonStatus'' = map_of s (kind x) \<and> cs_rank s' = Some 6 \<and>
         (\<forall>k \<in> kind ` set panel. k \<noteq> ''comparisonStatus'' \<longrightarrow> map_of s' k = None)"
proof -
  from assms(2) obtain d where d: "map_of s (kind x) = Some (PDict d)"
      "map_of d ''symbol'' = Some (PStr ''+'')"
    by (auto simp: carries_plus_def split: option.splits pyval.splits)
  then have u: "update_status (pop_kinds panel s) (Bound (PDict d)) = Inr (s', st')"
    using assms(1) by (simp add: status_step_def choose_status_plus and_then_def)
  have r: "sym_rank (PDict d) = Some 6"
    using d by (simp add: sym_rank_def status_order_def)
  from u show ?thesis
  proof (cases rule: update_status_cases)
    case (keep status i j)
    then have "cs_rank (pop_kinds panel s) = Some j" "6 < j" using r by (auto simp: read_status_def)
    then show ?thesis
      by (auto simp: cs_rank_def dest!: index_from_status_order split: option.splits pyval.splits)
  next
    case (gather status c d' sy t0 t1 t3)
    then show ?thesis using d by (auto simp: read_status_def)
  next
    case (assign status i j)
    then show ?thesis using d r
      by (auto simp: read_status_def update_conv' cs_rank_update map_of_pop_kinds)
  qed
qed

subsection \<open>The loop around a short circuit\<close>

lemma status_loop_plus:
  assumes "status_loop fmt panel es (s, st) = Inr (s', st')"
    "find (carries_plus s) es = Some e" "set es \<subseteq> set panel"
    "''comparisonStatus'' \<notin> kind ` set panel"
  shows "map_of s' ''comparisonStatus'' = map_of s (kind e) \<and>
         (\<forall>x\<in>set panel. map_of s' (kind x) = None)"
  using assms(1,2,3)
proof (induction es arbitrary: s st)
  case Nil
  then show ?case by simp
next
  case (Cons x es)
  from Cons.prems(1) obtain s1 st1 where
    1: "status_step fmt panel x (s, st) = Inr (s1, st1)"
    and 2: "status_loop fmt panel es (s1, st1) = Inr (s', st')"
    by (auto simp: and_then_Inr)
  show ?case
  proof (cases "carries_plus s x")
    case True
    with Cons.prems(2) have e: "e = x" by simp
    have kk: "\<And>y. y \<in> set panel \<Longrightarrow> kind y \<noteq> ''comparisonStatus''"
      using assms(4) by (metis image_eqI)
    from status_step_plus[OF 1 True] kk
    have p: "map_of s1 ''comparisonStatus'' = map_of s (kind x)" "cs_rank s1 = Some 6"
      "\<forall>y\<in>set panel. map_of s1 (kind y) = None"
      by auto
    then have "\<forall>y\<in>set es. map_of s1 (kind y) = None"
      using Cons.prems(3) by auto
    from status_loop_after_plus[OF 2 this p(2)] have "s' = s1" .
    with p e show ?thesis by simp
  next
    case False
    have fr: "\<And>k. k \<noteq> ''comparisonStatus'' \<Longrightarrow> map_of s1 k = map_of s k"
      using status_step_frame[OF 1 False] by simp
    have kk: "\<And>y. y \<in> set panel \<Longrightarrow> kind y \<noteq> ''comparisonStatus''"
      using assms(4) by (metis image_eqI)
    have "find (carries_plus s1) es = find (carries_plus s) es"
      using Cons.prems(3) by (intro find_cong refl carries_plus_cong fr kk) auto
    with False Cons.prems(2) have f: "find (carries_plus s1) es = Some e" by simp
    then have "e \<in> set es" by (auto simp: find_Some_iff)
    then have "map_of s1 (kind e) = map_of s (kind e)"
      using Cons.prems(3) by (intro fr kk) auto
    with Cons.IH[OF 2 f] Cons.prems(3) show ?thesis by simp
  qed
qed

lemma getattr_setattr [simp]: "getattr (setattr b w d) w = d"
  by (cases w) (simp_all add: getattr_def setattr_def)

lemma getattr_upd [simp]:
  "getattr (b\<lparr>calls := c\<rparr>) w = getattr b w"
  "getattr (b\<lparr>lead_expert := l\<rparr>) w = getattr b w"
  "getattr (b\<lparr>task_summary := t\<rparr>) w = getattr b w"
  by (simp_all add: getattr_def split: summary_name.splits)

lemma ExpertBoard_status_Inr:
  assumes "ExpertBoard_status fmt b w = Inr b'" "getattr b w \<noteq> []"
  shows "\<exists>s' st' lead.
    status_loop fmt (experts b) (experts b)
       (AList.update ''comparisonStatus''
          (status_doc ''-'' ''- No expert -'' ''No expert available'') (getattr b w), Unbound)
     = Inr (s', st') \<and>
    getattr b' w = (case lead of None \<Rightarrow> s' | Some l \<Rightarrow> AList.update ''leadExpert'' (PStr l) s')"
proof -
  let ?P = "map kind (filter (\<lambda>e. \<not> side_expert e) (experts b))"
  let ?lead = "if lead_expert b = None \<and> length ?P = 1 then Some (hd ?P) else lead_expert b"
  from assms obtain s' st' where
    l: "status_loop fmt (experts b) (experts b)
       (AList.update ''comparisonStatus''
          (status_doc ''-'' ''- No expert -'' ''No expert available'') (getattr b w), Unbound)
     = Inr (s', st')"
    and b': "b' = (setattr (b\<lparr>calls := calls b @ [''_status'']\<rparr>) w
               (case ?lead of None \<Rightarrow> s' | Some l \<Rightarrow> AList.update ''leadExpert'' (PStr l) s'))
               \<lparr>lead_expert := ?lead\<rparr>"
    by (auto simp: ExpertBoard_status_def Let_def and_then_Inr)
  have "getattr b' w = (case ?lead of None \<Rightarrow> s' | Some l \<Rightarrow> AList.update ''leadExpert'' (PStr l) s')"
    unfolding b' by simp
  with l show ?thesis by blast
qed


subsection \<open>The rank of the running status\<close>

lemma status_step_rank:
  assumes "status_step fmt panel x (s, st) = Inr (s', st')" "\<not> carries_plus s x" "cs_rank s = Some j"
  shows "\<exists>j'. cs_rank s' = Some j' \<and> j \<le> j'"
  using status_step_no_plus[OF assms(1,2)] assms(3) by (auto dest!: update_status_rank)

lemma status_step_KO:
  assumes "status_step fmt panel x (s, st) = Inr (s', st')" "\<not> carries_plus s x"
    "\<not> side_expert x" "map_of s (kind x) = Some (PDict d)" "map_of d ''Validated'' = Some (PBool False)"
  shows "\<exists>j'. cs_rank s' = Some j' \<and> 4 \<le> j'"
proof -
  have np: "map_of d ''symbol'' \<noteq> Some (PStr ''+'')"
    using assms(2,4) by (simp add: carries_plus_def)
  from assms(1) obtain c where c: "choose_status fmt s x = Inr c"
    and r: "(case c of Crashed d \<Rightarrow> update_status (pop_kinds panel s) (Bound d)
             | Continue \<Rightarrow> Inr (s, st) | Assign v \<Rightarrow> update_status s (Bound v)
             | Stale \<Rightarrow> update_status s st) = Inr (s', st')"
    by (auto simp: status_step_def and_then_Inr)
  from choose_status_KO[OF assms(4) np assms(3,5) c] obtain t where
    "c = Assign (status_doc ''KO'' ''KO'' t)" by blast
  with r have "update_status s (Bound (status_doc ''KO'' ''KO'' t)) = Inr (s', st')" by simp
  from update_status_rank[OF this] show ?thesis
    by (auto simp: read_status_def sym_rank_def status_doc_def status_order_def)
qed

lemma cs_rank_ge_KO:
  "cs_rank s = Some j \<Longrightarrow> 4 \<le> j \<Longrightarrow>
   comparison_symbol s \<in> {Some (PStr ''KO''), Some (PStr ''!''), Some (PStr ''+'')}"
  by (auto simp: cs_rank_def comparison_symbol_def status_order_def
      split: option.splits pyval.splits if_splits)


subsection \<open>Removing the document of a side expert\<close>

lemma drop_key_simps [simp]:
  "drop_key k (Inl err) = Inl err"
  "drop_key k (Inr (s, st)) = Inr (AList.delete k s, st)"
  by (simp_all add: drop_key_def)

lemma drop_key_and_then:
  "drop_key k (and_then m f) = and_then m (\<lambda>x. drop_key k (f x))"
  by (cases m) (simp_all add: and_then_def)

lemma update_status_delete:
  assumes "k \<noteq> ''comparisonStatus''"
  shows "update_status (AList.delete k s) st = drop_key k (update_status s st)"
proof -
  have g: "getitem (AList.delete k s) ''comparisonStatus'' = getitem s ''comparisonStatus''"
    using assms by (simp add: getitem_def)
  have r: "read_status (AList.delete k s) st = read_status s st"
    using g by (simp add: read_status_def split: stvar.splits)
  have u: "\<And>v. AList.update ''comparisonStatus'' v (AList.delete k s)
             = AList.delete k (AList.update ''comparisonStatus'' v s)"
    using assms by (simp add: delete_update)
  show ?thesis
    unfolding update_status_def g r u
    by (simp add: drop_key_and_then if_distrib[of "drop_key k"] pyval.case_distrib[of "drop_key k"]
        cong: if_cong pyval.case_cong)
qed

lemma pop_kinds_delete:
  "pop_kinds es (AList.delete k s) = AList.delete k (pop_kinds es s)"
  by (induction es arbitrary: s) (simp_all add: delete_twist)

lemma status_step_delete:
  assumes "k \<noteq> ''comparisonStatus''"
    "\<forall>y\<in>set panel. kind y = k \<longrightarrow> side_expert y" "x \<in> set panel"
    "map_of s k = None \<or> (\<exists>d. map_of s k = Some (PDict d) \<and> map_of d ''symbol'' \<noteq> Some (PStr ''+''))"
  shows "status_step fmt panel x (AList.delete k s, st) = drop_key k (status_step fmt panel x (s, st))"
proof (cases "kind x = k")
  case True
  then have sx: "side_expert x" using assms(2,3) by auto
  have 1: "choose_status fmt (AList.delete k s) x = Inr Continue"
    using True sx by (simp add: choose_status_absent delete_conv')
  have 2: "choose_status fmt s x = Inr Continue"
    using assms(4) True sx by (auto simp: choose_status_absent choose_status_side)
  show ?thesis by (simp add: status_step_def 1 2 and_then_def)
next
  case False
  then have c: "choose_status fmt (AList.delete k s) x = choose_status fmt s x"
    by (intro choose_status_cong) simp
  show ?thesis
  proof (cases "choose_status fmt s x")
    case (Inl err)
    then show ?thesis by (simp add: status_step_def c and_then_def)
  next
    case (Inr ch)
    then show ?thesis
      by (cases ch) (simp_all add: status_step_def c and_then_def update_status_delete[OF assms(1)]
          pop_kinds_delete)
  qed
qed

lemma status_step_keeps_doc:
  assumes "status_step fmt panel x (s, st) = Inr (s', st')" "k \<noteq> ''comparisonStatus''"
  shows "map_of s' k = None \<or> map_of s' k = map_of s k"
proof -
  from assms(1) obtain c where c: "choose_status fmt s x = Inr c"
    and r: "(case c of Crashed d \<Rightarrow> update_status (pop_kinds panel s) (Bound d)
             | Continue \<Rightarrow> Inr (s, st) | Assign v \<Rightarrow> update_status s (Bound v)
             | Stale \<Rightarrow> update_status s st) = Inr (s', st')"
    by (auto simp: status_step_def and_then_Inr)
  show ?thesis
    using r assms(2)
    by (cases c) (auto dest!: update_status_frame[where k = k] simp: map_of_pop_kinds)
qed

lemma status_loop_delete:
  assumes "k \<noteq> ''comparisonStatus''"
    "\<forall>y\<in>set panel. kind y = k \<longrightarrow> side_expert y" "set es \<subseteq> set panel"
    "map_of s k = None \<or> (\<exists>d. map_of s k = Some (PDict d) \<and> map_of d ''symbol'' \<noteq> Some (PStr ''+''))"
  shows "status_loop fmt panel es (AList.delete k s, st) = drop_key k (status_loop fmt panel es (s, st))"
  using assms(3,4)
proof (induction es arbitrary: s st)
  case Nil
  then show ?case by simp
next
  case (Cons x es)
  have x: "x \<in> set panel" using Cons.prems(1) by simp
  note st = status_step_delete[OF assms(1,2) x Cons.prems(2), of fmt st]
  show ?case
  proof (cases "status_step fmt panel x (s, st)")
    case (Inl err)
    then show ?thesis using st by (simp add: and_then_def)
  next
    case (Inr r)
    obtain s1 st1 where r: "r = (s1, st1)" by (cases r)
    from status_step_keeps_doc[OF Inr[unfolded r] assms(1)] Cons.prems(2)
    have "map_of s1 k = None \<or> (\<exists>d. map_of s1 k = Some (PDict d) \<and> map_of d ''symbol'' \<noteq> Some (PStr ''+''))"
      by auto
    from Cons.IH[OF _ this] Cons.prems(1) show ?thesis
      using st Inr r by (simp add: and_then_def)
  qed
qed

subsection \<open>Well-formed documents are aggregated without an exception\<close>

lemma valid_status_doc:
  "sy \<in> {''-'', ''0'', ''?'', ''OK'', ''KO'', ''!'', ''+''} \<Longrightarrow> valid_status (status_doc sy sh tx)"
  by (auto simp: valid_status_def status_doc_def status_order_def)

lemma index_from_total: "v \<in> set xs \<Longrightarrow> \<exists>i. index_from n xs v = Some i"
  by (induction xs arbitrary: n) auto

lemma update_status_returns:
  assumes "valid_status v" "map_of s ''comparisonStatus'' = Some cs" "valid_status cs"
  shows "\<exists>s' st' cs'. update_status s (Bound v) = Inr (s', st')
           \<and> map_of s' ''comparisonStatus'' = Some cs' \<and> valid_status cs'
           \<and> (\<forall>k. k \<noteq> ''comparisonStatus'' \<longrightarrow> map_of s' k = map_of s k)"
proof -
  from assms(1) obtain d sy where v: "v = PDict d" "map_of d ''symbol'' = Some (PStr sy)"
      "PStr sy \<in> set status_order"
      "sy = ''OK'' \<or> sy = ''KO'' \<Longrightarrow> \<exists>t. map_of d ''text'' = Some (PStr t)"
    unfolding valid_status_def by blast
  from assms(3) obtain c csy where c: "cs = PDict c" "map_of c ''symbol'' = Some (PStr csy)"
      "PStr csy \<in> set status_order"
      "csy = ''OK'' \<or> csy = ''KO'' \<Longrightarrow> \<exists>t. map_of c ''text'' = Some (PStr t)"
    unfolding valid_status_def by blast
  from v(3) obtain i where i: "index_from 0 status_order (PStr sy) = Some i"
    using index_from_total by fastforce
  from c(3) obtain j where j: "index_from 0 status_order (PStr csy) = Some j"
    using index_from_total by fastforce
  note basics = update_status_def read_status_def and_then_def getitem_def py_index_def
  show ?thesis
  proof (cases "j \<le> i")
    case False
    then have "update_status s (Bound v) = Inr (s, Bound v)"
      using v c i j assms(2) by (simp add: basics)
    then show ?thesis using assms(2,3) by auto
  next
    case True
    show ?thesis
    proof (cases "sy = csy \<and> (sy = ''OK'' \<or> sy = ''KO'')")
      case False
      then have "update_status s (Bound v) = Inr (AList.update ''comparisonStatus'' v s, Shared)"
        using True v c i j assms(2) by (auto simp: basics)
      then show ?thesis using assms(1) by (auto simp: update_conv')
    next
      case g: True
      then obtain t0 t1 where t: "map_of c ''text'' = Some (PStr t0)" "map_of d ''text'' = Some (PStr t1)"
        using v(4) c(4) by auto
      let ?c' = "AList.update ''text'' (PStr (t0 @ '' | '' @ t1)) c"
      have "update_status s (Bound v)
              = Inr (AList.update ''comparisonStatus'' (PDict ?c') s, Bound v)"
        using True g v c i j t assms(2) by (auto simp: basics)
      moreover have "valid_status (PDict ?c')"
        using c(2,3) by (simp add: valid_status_def update_conv')
      ultimately show ?thesis by (auto simp: update_conv')
    qed
  qed
qed

lemma choose_status_returns:
  assumes "case map_of s (kind e) of None \<Rightarrow> True | Some v \<Rightarrow> well_formed_doc v"
  shows "(\<exists>d. choose_status fmt s e = Inr (Crashed d) \<and> map_of s (kind e) = Some d \<and> valid_status d)
       \<or> choose_status fmt s e = Inr Continue
       \<or> (\<exists>v. choose_status fmt s e = Inr (Assign v) \<and> valid_status v)"
proof (cases "map_of s (kind e)")
  case None
  then show ?thesis
    by (simp add: choose_status_absent valid_status_doc)
next
  case (Some v)
  with assms have w: "well_formed_doc v" by simp
  then obtain d where d: "v = PDict d"
    by (cases v) (simp_all add: well_formed_doc_def)
  from w d have val: "case map_of d ''Validated'' of None \<Rightarrow> True
              | Some x \<Rightarrow> (x = PBool True \<or> x = PBool False) \<and> map_of d ''Validated means'' \<noteq> None"
    and cst: "case map_of d ''comparisonStatus'' of None \<Rightarrow> True | Some (PDict c) \<Rightarrow> True | Some _ \<Rightarrow> False"
    by (simp_all add: well_formed_doc_def)
  note m = Some[unfolded d]
  show ?thesis
  proof (cases "map_of d ''symbol'' = Some (PStr ''+'')")
    case True
    then have "valid_status (PDict d)" by (simp add: valid_status_def status_order_def)
    with choose_status_plus[OF m True] m show ?thesis by auto
  next
    case np: False
    show ?thesis
    proof (cases "side_expert e")
      case True
      with choose_status_side[OF m np] show ?thesis by simp
    next
      case ns: False
      note basics = choose_status_def kind_and_def in_keys_iff and_then_def getitem_def
      show ?thesis
      proof (cases "map_of d ''Validated''")
        case (Some x)
        with val obtain mm where mm: "map_of d ''Validated means'' = Some mm"
            and x: "x = PBool True \<or> x = PBool False" by auto
        from x show ?thesis
        proof
          assume "x = PBool True"
          then have "choose_status fmt s e = Inr (Assign (status_doc ''OK'' ''OK'' (''Success: \"'' @ fmt mm @ ''\"'')))"
            using m np ns Some mm by (simp add: basics)
          then show ?thesis by (simp add: valid_status_doc)
        next
          assume "x = PBool False"
          then have "choose_status fmt s e = Inr (Assign (status_doc ''KO'' ''KO'' (''Fail: \"'' @ fmt mm @ ''\" is False'')))"
            using m np ns Some mm by (simp add: basics)
          then show ?thesis by (simp add: valid_status_doc)
        qed
      next
        case nv: None
        show ?thesis
        proof (cases "map_of d ''Comparison'' = Some (PStr ''Failed'')")
          case True
          then have "choose_status fmt s e = Inr (Assign (status_doc ''!'' ''! Comp Issue !''
              ''To be checked: at least one technical problem occurred in comparison''))"
            using m np ns nv by (simp add: basics)
          then show ?thesis by (simp add: valid_status_doc)
        next
          case nf: False
          show ?thesis
          proof (cases "map_of d ''comparisonStatus''")
            case None
            then have "choose_status fmt s e = Inr (Assign (status_doc ''?'' ''? Unknown ?''
                ''To be checked: expert has not stated about Validation''))"
              using m np ns nv nf by (simp add: basics)
            then show ?thesis by (simp add: valid_status_doc)
          next
            case (Some c0)
            with cst obtain c where c: "c0 = PDict c" by (auto split: pyval.splits)
            show ?thesis
            proof (cases "map_of c ''symbol'' = Some (PStr ''0'')")
              case True
              then have "choose_status fmt s e = Inr (Assign (PDict c))"
                using m np ns nv nf Some c by (simp add: basics)
              moreover have "valid_status (PDict c)"
                using True by (simp add: valid_status_def status_order_def)
              ultimately show ?thesis by simp
            next
              case False
              then have "choose_status fmt s e = Inr (Assign (status_doc ''?'' ''? Unknown ?''
                  ''To be checked: expert has not stated about Validation''))"
                using m np ns nv nf Some c by (simp add: basics)
              then show ?thesis by (simp add: valid_status_doc)
            qed
          qed
        qed
      qed
    qed
  qed
qed

lemma well_formed_summary_cong:
  assumes "well_formed_summary panel s" "\<And>x. x \<in> set panel \<Longrightarrow> map_of s' (kind x) = map_of s (kind x) \<or> map_of s' (kind x) = None"
  shows "well_formed_summary panel s'"
  unfolding well_formed_summary_def list_all_iff
proof
  fix x assume x: "x \<in> set panel"
  from assms(1) x have "case map_of s (kind x) of None \<Rightarrow> True | Some v \<Rightarrow> well_formed_doc v"
    by (simp add: well_formed_summary_def list_all_iff)
  with assms(2)[OF x] show "case map_of s' (kind x) of None \<Rightarrow> True | Some v \<Rightarrow> well_formed_doc v"
    by auto
qed

lemma status_step_returns:
  assumes "''comparisonStatus'' \<notin> kind ` set panel" "well_formed_summary panel s"
    "map_of s ''comparisonStatus'' = Some cs" "valid_status cs" "e \<in> set panel"
  shows "\<exists>s' st' cs'. status_step fmt panel e (s, st) = Inr (s', st')
           \<and> well_formed_summary panel s' \<and> map_of s' ''comparisonStatus'' = Some cs' \<and> valid_status cs'"
proof -
  have kk: "\<And>y. y \<in> set panel \<Longrightarrow> kind y \<noteq> ''comparisonStatus''"
    using assms(1) by (metis image_eqI)
  from assms(2,5) have "case map_of s (kind e) of None \<Rightarrow> True | Some v \<Rightarrow> well_formed_doc v"
    by (simp add: well_formed_summary_def list_all_iff)
  from choose_status_returns[OF this, of fmt]
  consider (crashed) d where "choose_status fmt s e = Inr (Crashed d)" "valid_status d"
    | (continue) "choose_status fmt s e = Inr Continue"
    | (assign) v where "choose_status fmt s e = Inr (Assign v)" "valid_status v"
    by blast
  then show ?thesis
  proof cases
    case (crashed d)
    have p: "map_of (pop_kinds panel s) ''comparisonStatus'' = Some cs"
      using assms(1,3) by (simp add: map_of_pop_kinds)
    from update_status_returns[OF crashed(2) p assms(4)] obtain s' st' cs' where
      u: "update_status (pop_kinds panel s) (Bound d) = Inr (s', st')"
         "map_of s' ''comparisonStatus'' = Some cs'" "valid_status cs'"
         "\<forall>k. k \<noteq> ''comparisonStatus'' \<longrightarrow> map_of s' k = map_of (pop_kinds panel s) k"
      by blast
    have "well_formed_summary panel s'"
      using assms(2)
    proof (rule well_formed_summary_cong)
      fix x assume "x \<in> set panel"
      then show "map_of s' (kind x) = map_of s (kind x) \<or> map_of s' (kind x) = None"
        using u(4) kk by (simp add: map_of_pop_kinds)
    qed
    with u crashed(1) show ?thesis by (simp add: status_step_def and_then_def)
  next
    case continue
    with assms show ?thesis by (simp add: status_step_def and_then_def)
  next
    case (assign v)
    from update_status_returns[OF assign(2) assms(3,4)] obtain s' st' cs' where
      u: "update_status s (Bound v) = Inr (s', st')"
         "map_of s' ''comparisonStatus'' = Some cs'" "valid_status cs'"
         "\<forall>k. k \<noteq> ''comparisonStatus'' \<longrightarrow> map_of s' k = map_of s k"
      by blast
    have "well_formed_summary panel s'"
      using assms(2)
    proof (rule well_formed_summary_cong)
      fix x assume "x \<in> set panel"
      then show "map_of s' (kind x) = map_of s (kind x) \<or> map_of s' (kind x) = None"
        using u(4) kk by simp
    qed
    with u assign(1) show ?thesis by (simp add: status_step_def and_then_def)
  qed
qed

lemma status_loop_returns:
  assumes "''comparisonStatus'' \<notin> kind ` set panel" "well_formed_summary panel s"
    "map_of s ''comparisonStatus'' = Some cs" "valid_status cs" "set es \<subseteq> set panel"
  shows "\<exists>r. status_loop fmt panel es (s, st) = Inr r"
  using assms(2,3,4,5)
proof (induction es arbitrary: s st cs)
  case Nil
  then show ?case by simp
next
  case (Cons e es)
  from Cons.prems(4) have e: "e \<in> set panel" and es: "set es \<subseteq> set panel" by simp_all
  from status_step_returns[OF assms(1) Cons.prems(1,2,3) e, of fmt st]
  obtain s' st' cs' where
    1: "status_step fmt panel e (s, st) = Inr (s', st')"
    and 2: "well_formed_summary panel s'" "map_of s' ''comparisonStatus'' = Some cs'" "valid_status cs'"
    by blast
  from Cons.IH[OF 2 es, of st'] 1 show ?case by (simp add: and_then_def)
qed

lemma ExpertBoard_status_returns:
  assumes "''comparisonStatus'' \<notin> kind ` set (experts b)"
    "well_formed_summary (experts b) (getattr b w)"
  shows "\<exists>b'. ExpertBoard_status fmt b w = Inr b'"
proof (cases "getattr b w = []")
  case True
  then show ?thesis by (simp add: ExpertBoard_status_def Let_def)
next
  case False
  let ?d = "status_doc ''-'' ''- No expert -'' ''No expert available''"
  let ?s0 = "AList.update ''comparisonStatus'' ?d (getattr b w)"
  have kk: "\<And>y. y \<in> set (experts b) \<Longrightarrow> kind y \<noteq> ''comparisonStatus''"
    using assms(1) by (metis image_eqI)
  have w0: "well_formed_summary (experts b) ?s0"
    using assms(2) by (rule well_formed_summary_cong) (simp add: update_conv' kk)
  have c0: "map_of ?s0 ''comparisonStatus'' = Some ?d" by (simp add: update_conv')
  have v0: "valid_status ?d" by (simp add: valid_status_doc)
  from status_loop_returns[OF assms(1) w0 c0 v0 subset_refl, of fmt Unbound]
  obtain r where "status_loop fmt (experts b) (experts b) (?s0, Unbound) = Inr r" by blast
  with False show ?thesis
    by (cases r) (simp add: ExpertBoard_status_def Let_def and_then_def)
qed

subsection \<open>The short circuit and the floor, for a run that returns\<close>

lemma first_plus_wins:
  assumes "ExpertBoard_status fmt b w = Inr b'"
    "find (carries_plus (getattr b w)) (experts b) = Some e"
    "''comparisonStatus'' \<notin> kind ` set (experts b)"
  shows "map_of (getattr b' w) ''comparisonStatus'' = map_of (getattr b w) (kind e) \<and>
         (\<forall>x\<in>set (experts b). kind x \<noteq> ''leadExpert'' \<longrightarrow> map_of (getattr b' w) (kind x) = None)"
proof -
  let ?s0 = "AList.update ''comparisonStatus''
          (status_doc ''-'' ''- No expert -'' ''No expert available'') (getattr b w)"
  have e: "e \<in> set (experts b)" "carries_plus (getattr b w) e"
    using assms(2) by (auto simp: find_Some_iff)
  then have ne: "getattr b w \<noteq> []" by (auto simp: carries_plus_def)
  have kk: "\<And>y. y \<in> set (experts b) \<Longrightarrow> kind y \<noteq> ''comparisonStatus''"
    using assms(3) by (metis image_eqI)
  have f: "find (carries_plus ?s0) (experts b) = Some e"
    using assms(2) by (subst find_cong[OF refl, of _ _ "carries_plus (getattr b w)"])
        (auto intro!: carries_plus_cong simp: update_conv' dest: kk)
  from assms(1) ne obtain s' st' lead where
    l: "status_loop fmt (experts b) (experts b) (?s0, Unbound) = Inr (s', st')"
    and g: "getattr b' w = (case lead of None \<Rightarrow> s' | Some l \<Rightarrow> AList.update ''leadExpert'' (PStr l) s')"
    using ExpertBoard_status_Inr by blast
  from status_loop_plus[OF l f _ assms(3)]
  have "map_of s' ''comparisonStatus'' = map_of ?s0 (kind e)"
      "\<forall>x\<in>set (experts b). map_of s' (kind x) = None" by auto
  moreover have "map_of ?s0 (kind e) = map_of (getattr b w) (kind e)"
    using kk[OF e(1)] by (simp add: update_conv')
  ultimately show ?thesis using g by (auto simp: update_conv' split: option.splits)
qed

subsection \<open>A side expert: same status without its document, and the document kept\<close>

lemma side_expert_is_ignored:
  assumes "e \<in> set (experts b)" "side_expert e"
    "\<forall>y\<in>set (experts b). kind y = kind e \<longrightarrow> side_expert y"
    "kind e \<noteq> ''comparisonStatus''"
    "map_of (getattr b w) (kind e) = Some (PDict d)" "map_of d ''symbol'' \<noteq> Some (PStr ''+'')"
    "AList.delete (kind e) (getattr b w) \<noteq> []"
  shows "final_status w (ExpertBoard_status fmt (setattr b w (AList.delete (kind e) (getattr b w))) w)
       = final_status w (ExpertBoard_status fmt b w)"
proof -
  let ?k = "kind e"
  let ?d = "status_doc ''-'' ''- No expert -'' ''No expert available''"
  let ?s0 = "AList.update ''comparisonStatus'' ?d (getattr b w)"
  have ne: "getattr b w \<noteq> []" using assms(5) by auto
  have u: "AList.update ''comparisonStatus'' ?d (AList.delete ?k (getattr b w)) = AList.delete ?k ?s0"
    using assms(4) by (simp add: delete_update)
  have i: "map_of ?s0 ?k = None \<or> (\<exists>d. map_of ?s0 ?k = Some (PDict d) \<and> map_of d ''symbol'' \<noteq> Some (PStr ''+''))"
    using assms(4,5,6) by (simp add: update_conv')
  note l = status_loop_delete[OF assms(4,3) subset_refl i, of fmt Unbound]
  have ex: "experts (setattr b w x) = experts b" "lead_expert (setattr b w x) = lead_expert b" for x
    by (cases w; simp add: setattr_def)+
  show ?thesis
  proof (cases "status_loop fmt (experts b) (experts b) (?s0, Unbound)")
    case (Inl err)
    then show ?thesis
      using ne assms(7) l
      by (simp add: ExpertBoard_status_def Let_def u final_status_def final_entry_def and_then_def ex)
  next
    case (Inr r)
    obtain s1 st1 where r: "r = (s1, st1)" by (cases r)
    show ?thesis
      using ne assms(7,4) l Inr r
      by (simp add: ExpertBoard_status_def Let_def u final_status_def final_entry_def and_then_def ex update_conv'
          split: option.splits)
  qed
qed

lemma choose_status_Assign:
  assumes "choose_status fmt s e = Inr (Assign v)"
  shows "\<forall>d. v = PDict d \<longrightarrow> map_of d ''symbol'' \<noteq> Some (PStr ''+'')"
  using assms
  by (auto simp add: choose_status_def kind_and_def in_keys_iff and_then_Inr getitem_Inr py_get_Inr
        py_getitem_Inr status_doc_def
      split: if_splits option.splits)

lemma status_step_not_plus:
  assumes "status_step fmt panel x (s, st) = Inr (s', st')" "\<not> carries_plus s x"
    "\<forall>c. map_of s ''comparisonStatus'' = Some (PDict c) \<longrightarrow> map_of c ''symbol'' \<noteq> Some (PStr ''+'')"
    "\<forall>c. st = Bound (PDict c) \<longrightarrow> map_of c ''symbol'' \<noteq> Some (PStr ''+'')"
  shows "(\<forall>c. map_of s' ''comparisonStatus'' = Some (PDict c) \<longrightarrow> map_of c ''symbol'' \<noteq> Some (PStr ''+''))
       \<and> (\<forall>c. st' = Bound (PDict c) \<longrightarrow> map_of c ''symbol'' \<noteq> Some (PStr ''+''))"
proof -
  from assms(1) obtain ch where ch: "choose_status fmt s x = Inr ch"
    and r: "(case ch of Crashed d \<Rightarrow> update_status (pop_kinds panel s) (Bound d)
             | Continue \<Rightarrow> Inr (s, st) | Assign v \<Rightarrow> update_status s (Bound v)
             | Stale \<Rightarrow> update_status s st) = Inr (s', st')"
    by (auto simp: status_step_def and_then_Inr)
  have upd: "(\<forall>c. map_of s' ''comparisonStatus'' = Some (PDict c) \<longrightarrow> map_of c ''symbol'' \<noteq> Some (PStr ''+''))
       \<and> (\<forall>c. st' = Bound (PDict c) \<longrightarrow> map_of c ''symbol'' \<noteq> Some (PStr ''+''))"
    if u: "update_status s st0 = Inr (s', st')"
      and s0: "\<forall>c. st0 = Bound (PDict c) \<longrightarrow> map_of c ''symbol'' \<noteq> Some (PStr ''+'')" for st0
    using u
  proof (cases rule: update_status_cases)
    case (keep status i j)
    with assms(3) s0 show ?thesis by simp
  next
    case (gather status c d sy t0 t1 t3)
    with s0 show ?thesis by (auto simp: update_conv')
  next
    case (assign status i j)
    show ?thesis
    proof (cases st0)
      case Unbound
      with assign show ?thesis by (simp add: read_status_def)
    next
      case (Bound v)
      with assign s0 show ?thesis by (auto simp: read_status_def update_conv')
    next
      case Shared
      with assign assms(3) show ?thesis
        by (auto simp: read_status_def update_conv' getitem_Inr)
    qed
  qed
  show ?thesis
  proof (cases ch)
    case (Crashed d)
    with ch assms(2) show ?thesis by (auto dest: choose_status_Crashed)
  next
    case Continue
    with r assms(3,4) show ?thesis by simp
  next
    case (Assign v)
    with r have "update_status s (Bound v) = Inr (s', st')" by simp
    moreover have "\<forall>c. Bound v = Bound (PDict c) \<longrightarrow> map_of c ''symbol'' \<noteq> Some (PStr ''+'')"
      using choose_status_Assign[OF ch[unfolded Assign]] by simp
    ultimately show ?thesis by (rule upd)
  next
    case Stale
    with r have "update_status s st = Inr (s', st')" by simp
    from this assms(4) show ?thesis by (rule upd)
  qed
qed

lemma status_loop_frame:
  assumes "status_loop fmt panel es (s, st) = Inr (s', st')"
    "\<forall>x\<in>set es. kind x \<noteq> ''comparisonStatus'' \<longrightarrow> \<not> carries_plus s x"
    "\<forall>c. map_of s ''comparisonStatus'' = Some (PDict c) \<longrightarrow> map_of c ''symbol'' \<noteq> Some (PStr ''+'')"
    "\<forall>c. st = Bound (PDict c) \<longrightarrow> map_of c ''symbol'' \<noteq> Some (PStr ''+'')"
    "k \<noteq> ''comparisonStatus''"
  shows "map_of s' k = map_of s k"
  using assms(1,2,3,4)
proof (induction es arbitrary: s st)
  case Nil
  then show ?case by simp
next
  case (Cons x es)
  from Cons.prems(1) obtain s1 st1 where
    1: "status_step fmt panel x (s, st) = Inr (s1, st1)"
    and 2: "status_loop fmt panel es (s1, st1) = Inr (s', st')"
    by (auto simp: and_then_Inr)
  have nx: "\<not> carries_plus s x"
  proof (cases "kind x = ''comparisonStatus''")
    case True
    with Cons.prems(3) show ?thesis
      by (auto simp: carries_plus_def split: option.splits pyval.splits)
  next
    case False
    with Cons.prems(2) show ?thesis by simp
  qed
  have fr: "\<And>k. k \<noteq> ''comparisonStatus'' \<Longrightarrow> map_of s1 k = map_of s k"
    using status_step_frame[OF 1 nx] by simp
  have n1: "\<forall>y\<in>set es. kind y \<noteq> ''comparisonStatus'' \<longrightarrow> \<not> carries_plus s1 y"
  proof (intro ballI impI)
    fix y assume y: "y \<in> set es" and ky: "kind y \<noteq> ''comparisonStatus''"
    then have "carries_plus s1 y = carries_plus s y" by (intro carries_plus_cong fr)
    with y ky Cons.prems(2) show "\<not> carries_plus s1 y" by simp
  qed
  from status_step_not_plus[OF 1 nx Cons.prems(3,4)]
  have i1: "\<forall>c. map_of s1 ''comparisonStatus'' = Some (PDict c) \<longrightarrow> map_of c ''symbol'' \<noteq> Some (PStr ''+'')"
    and i2: "\<forall>c. st1 = Bound (PDict c) \<longrightarrow> map_of c ''symbol'' \<noteq> Some (PStr ''+'')"
    by simp_all
  from Cons.IH[OF 2 n1 i1 i2] fr[OF assms(5)] show ?case by simp
qed

lemma documents_retained:
  assumes "ExpertBoard_status fmt b w = Inr b'"
    "\<forall>x\<in>set (experts b). \<not> carries_plus (getattr b w) x"
    "k \<noteq> ''comparisonStatus''" "k \<noteq> ''leadExpert''"
  shows "map_of (getattr b' w) k = map_of (getattr b w) k"
proof (cases "getattr b w = []")
  case True
  with assms(1) have "b' = ExpertBoard_notify_no_ref_resource (b\<lparr>calls := calls b @ [''_status'']\<rparr>) w"
    by (simp add: ExpertBoard_status_def Let_def)
  then show ?thesis
    using True assms(3) by (simp add: ExpertBoard_notify_no_ref_resource_def Let_def update_conv')
next
  case False
  let ?s0 = "AList.update ''comparisonStatus''
          (status_doc ''-'' ''- No expert -'' ''No expert available'') (getattr b w)"
  from assms(1) False obtain s' st' lead where
    l: "status_loop fmt (experts b) (experts b) (?s0, Unbound) = Inr (s', st')"
    and g: "getattr b' w = (case lead of None \<Rightarrow> s' | Some l \<Rightarrow> AList.update ''leadExpert'' (PStr l) s')"
    using ExpertBoard_status_Inr by blast
  have n0: "\<forall>x\<in>set (experts b). kind x \<noteq> ''comparisonStatus'' \<longrightarrow> \<not> carries_plus ?s0 x"
  proof (intro ballI impI)
    fix y assume y: "y \<in> set (experts b)" and ky: "kind y \<noteq> ''comparisonStatus''"
    then have "carries_plus ?s0 y = carries_plus (getattr b w) y"
      by (intro carries_plus_cong) (simp add: update_conv')
    with y assms(2) show "\<not> carries_plus ?s0 y" by simp
  qed
  have c0: "\<forall>c. map_of ?s0 ''comparisonStatus'' = Some (PDict c) \<longrightarrow> map_of c ''symbol'' \<noteq> Some (PStr ''+'')"
    by (auto simp: update_conv' status_doc_def)
  have "map_of s' k = map_of ?s0 k"
    by (rule status_loop_frame[OF l n0 c0 _ assms(3)]) simp
  then have "map_of s' k = map_of (getattr b w) k"
    using assms(3) by (simp add: update_conv')
  then show ?thesis
    using g assms(4) by (simp add: update_conv' split: option.splits)
qed

subsection \<open>The floor under the status, for a run that returns\<close>

lemma status_loop_rank:
  assumes "status_loop fmt panel es (s, st) = Inr (s', st')"
    "\<forall>x\<in>set es. kind x \<noteq> ''comparisonStatus'' \<longrightarrow> \<not> carries_plus s x"
    "\<forall>c. map_of s ''comparisonStatus'' = Some (PDict c) \<longrightarrow> map_of c ''symbol'' \<noteq> Some (PStr ''+'')"
    "\<forall>c. st = Bound (PDict c) \<longrightarrow> map_of c ''symbol'' \<noteq> Some (PStr ''+'')"
    "cs_rank s = Some j"
  shows "\<exists>j'. cs_rank s' = Some j' \<and> j \<le> j'"
  using assms
proof (induction es arbitrary: s st j)
  case Nil
  then show ?case by simp
next
  case (Cons x es)
  from Cons.prems(1) obtain s1 st1 where
    1: "status_step fmt panel x (s, st) = Inr (s1, st1)"
    and 2: "status_loop fmt panel es (s1, st1) = Inr (s', st')"
    by (auto simp: and_then_Inr)
  have nx: "\<not> carries_plus s x"
  proof (cases "kind x = ''comparisonStatus''")
    case True
    with Cons.prems(3) show ?thesis
      by (auto simp: carries_plus_def split: option.splits pyval.splits)
  next
    case False
    with Cons.prems(2) show ?thesis by simp
  qed
  from status_step_rank[OF 1 nx Cons.prems(5)] obtain j1 where
    j1: "cs_rank s1 = Some j1" "j \<le> j1" by blast
  have fr: "\<And>k. k \<noteq> ''comparisonStatus'' \<Longrightarrow> map_of s1 k = map_of s k"
    using status_step_frame[OF 1 nx] by simp
  have n1: "\<forall>y\<in>set es. kind y \<noteq> ''comparisonStatus'' \<longrightarrow> \<not> carries_plus s1 y"
  proof (intro ballI impI)
    fix y assume y: "y \<in> set es" and ky: "kind y \<noteq> ''comparisonStatus''"
    then have "carries_plus s1 y = carries_plus s y" by (intro carries_plus_cong fr)
    with y ky Cons.prems(2) show "\<not> carries_plus s1 y" by simp
  qed
  from status_step_not_plus[OF 1 nx Cons.prems(3,4)]
  have i1: "\<forall>c. map_of s1 ''comparisonStatus'' = Some (PDict c) \<longrightarrow> map_of c ''symbol'' \<noteq> Some (PStr ''+'')"
    and i2: "\<forall>c. st1 = Bound (PDict c) \<longrightarrow> map_of c ''symbol'' \<noteq> Some (PStr ''+'')"
    by simp_all
  from Cons.IH[OF 2 n1 i1 i2 j1(1)] j1(2) show ?case by fastforce
qed

lemma status_loop_KO:
  assumes "status_loop fmt panel es (s, st) = Inr (s', st')"
    "\<forall>x\<in>set es. kind x \<noteq> ''comparisonStatus'' \<longrightarrow> \<not> carries_plus s x"
    "\<forall>c. map_of s ''comparisonStatus'' = Some (PDict c) \<longrightarrow> map_of c ''symbol'' \<noteq> Some (PStr ''+'')"
    "\<forall>c. st = Bound (PDict c) \<longrightarrow> map_of c ''symbol'' \<noteq> Some (PStr ''+'')"
    "cs_rank s = Some j"
    "e \<in> set es" "\<not> side_expert e" "kind e \<noteq> ''comparisonStatus''"
    "map_of s (kind e) = Some (PDict d)" "map_of d ''Validated'' = Some (PBool False)"
  shows "\<exists>j'. cs_rank s' = Some j' \<and> 4 \<le> j'"
  using assms(1,2,3,4,5,6,9)
proof (induction es arbitrary: s st j)
  case Nil
  then show ?case by simp
next
  case (Cons x es)
  from Cons.prems(1) obtain s1 st1 where
    1: "status_step fmt panel x (s, st) = Inr (s1, st1)"
    and 2: "status_loop fmt panel es (s1, st1) = Inr (s', st')"
    by (auto simp: and_then_Inr)
  have nx: "\<not> carries_plus s x"
  proof (cases "kind x = ''comparisonStatus''")
    case True
    with Cons.prems(3) show ?thesis
      by (auto simp: carries_plus_def split: option.splits pyval.splits)
  next
    case False
    with Cons.prems(2) show ?thesis by simp
  qed
  from status_step_rank[OF 1 nx Cons.prems(5)] obtain j1 where
    j1: "cs_rank s1 = Some j1" "j \<le> j1" by blast
  have fr: "\<And>k. k \<noteq> ''comparisonStatus'' \<Longrightarrow> map_of s1 k = map_of s k"
    using status_step_frame[OF 1 nx] by simp
  have n1: "\<forall>y\<in>set es. kind y \<noteq> ''comparisonStatus'' \<longrightarrow> \<not> carries_plus s1 y"
  proof (intro ballI impI)
    fix y assume y: "y \<in> set es" and ky: "kind y \<noteq> ''comparisonStatus''"
    then have "carries_plus s1 y = carries_plus s y" by (intro carries_plus_cong fr)
    with y ky Cons.prems(2) show "\<not> carries_plus s1 y" by simp
  qed
  from status_step_not_plus[OF 1 nx Cons.prems(3,4)]
  have i1: "\<forall>c. map_of s1 ''comparisonStatus'' = Some (PDict c) \<longrightarrow> map_of c ''symbol'' \<noteq> Some (PStr ''+'')"
    and i2: "\<forall>c. st1 = Bound (PDict c) \<longrightarrow> map_of c ''symbol'' \<noteq> Some (PStr ''+'')"
    by simp_all
  show ?case
  proof (cases "x = e")
    case True
    from status_step_KO[OF 1 nx] True assms(7,10) Cons.prems(7)
    obtain j2 where j2: "cs_rank s1 = Some j2" "4 \<le> j2" by blast
    from status_loop_rank[OF 2 n1 i1 i2 j2(1)] j2(2) show ?thesis by fastforce
  next
    case False
    then have e: "e \<in> set es" using Cons.prems(6) by simp
    have "map_of s1 (kind e) = Some (PDict d)" using fr[OF assms(8)] Cons.prems(7) by simp
    from Cons.IH[OF 2 n1 i1 i2 j1(1) e this] show ?thesis .
  qed
qed

lemma KO_is_a_floor:
  assumes "ExpertBoard_status fmt b w = Inr b'"
    "e \<in> set (experts b)" "\<not> side_expert e" "kind e \<noteq> ''comparisonStatus''"
    "map_of (getattr b w) (kind e) = Some (PDict d)" "map_of d ''Validated'' = Some (PBool False)"
    "\<forall>x\<in>set (experts b). \<not> carries_plus (getattr b w) x"
  shows "(\<exists>j. cs_rank (getattr b' w) = Some j \<and> 4 \<le> j) \<and>
         comparison_symbol (getattr b' w) \<in> {Some (PStr ''KO''), Some (PStr ''!''), Some (PStr ''+'')}"
proof -
  let ?s0 = "AList.update ''comparisonStatus''
          (status_doc ''-'' ''- No expert -'' ''No expert available'') (getattr b w)"
  have ne: "getattr b w \<noteq> []" using assms(5) by auto
  from assms(1) ne obtain s' st' lead where
    l: "status_loop fmt (experts b) (experts b) (?s0, Unbound) = Inr (s', st')"
    and g: "getattr b' w = (case lead of None \<Rightarrow> s' | Some l \<Rightarrow> AList.update ''leadExpert'' (PStr l) s')"
    using ExpertBoard_status_Inr by blast
  have n0: "\<forall>x\<in>set (experts b). kind x \<noteq> ''comparisonStatus'' \<longrightarrow> \<not> carries_plus ?s0 x"
  proof (intro ballI impI)
    fix y assume y: "y \<in> set (experts b)" and ky: "kind y \<noteq> ''comparisonStatus''"
    then have "carries_plus ?s0 y = carries_plus (getattr b w) y"
      by (intro carries_plus_cong) (simp add: update_conv')
    with y assms(7) show "\<not> carries_plus ?s0 y" by simp
  qed
  have c0: "\<forall>c. map_of ?s0 ''comparisonStatus'' = Some (PDict c) \<longrightarrow> map_of c ''symbol'' \<noteq> Some (PStr ''+'')"
    by (auto simp: update_conv' status_doc_def)
  have t0: "\<forall>c. Unbound = Bound (PDict c) \<longrightarrow> map_of c ''symbol'' \<noteq> Some (PStr ''+'')"
    by simp
  have r0: "cs_rank ?s0 = Some 0"
    by (simp add: cs_rank_update sym_rank_def status_doc_def status_order_def)
  have d0: "map_of ?s0 (kind e) = Some (PDict d)"
    using assms(4,5) by (simp add: update_conv')
  from status_loop_KO[OF l n0 c0 t0 r0 assms(2,3,4) d0 assms(6)]
  obtain j where j: "cs_rank s' = Some j" "4 \<le> j" by blast
  have "cs_rank (getattr b' w) = cs_rank s'"
    using g by (auto simp: cs_rank_def update_conv' split: option.splits)
  with j have "cs_rank (getattr b' w) = Some j" by simp
  from this cs_rank_ge_KO[OF this j(2)] j(2) show ?thesis by blast
qed

section \<open>Status aggregation: results\<close>

lemmas status_eval_defs =
  ExpertBoard_status_def ExpertBoard_notify_no_ref_resource_def getattr_def setattr_def
  status_step_def choose_status_def kind_and_def and_then_def getitem_def update_status_def
  read_status_def status_doc_def status_order_def py_index_def str_format_def

lemmas ex_defs =
  ex_board_def norms_expert_def fields_expert_def setup_expert_def validated_doc_def
  crashed_doc_def final_status_def final_entry_def carries_plus_def cs_rank_def
  comparison_symbol_def

text \<open>
  C1, as amended. Let no expert's kind be the key \<^verbatim>\<open>comparisonStatus\<close>. When some
  expert's document carries the symbol \<^verbatim>\<open>'+'\<close> and \<^verbatim>\<open>_status\<close> returns, the final
  \<^verbatim>\<open>comparisonStatus\<close> is the document of the first such expert in panel order,
  and no expert's kind is a key of the final summary any more (a kind named
  \<^verbatim>\<open>leadExpert\<close> apart, since that key is written last). On a well-formed
  summary \<^verbatim>\<open>_status\<close> does return.
\<close>

theorem C1_first_plus_wins:
  assumes "find (carries_plus (getattr b w)) (experts b) = Some e"
    "''comparisonStatus'' \<notin> kind ` set (experts b)"
  shows "(\<forall>b'. ExpertBoard_status fmt b w = Inr b' \<longrightarrow>
            map_of (getattr b' w) ''comparisonStatus'' = map_of (getattr b w) (kind e)
          \<and> (\<forall>x\<in>set (experts b). kind x \<noteq> ''leadExpert'' \<longrightarrow>
                map_of (getattr b' w) (kind x) = None))
       \<and> (well_formed_summary (experts b) (getattr b w) \<longrightarrow>
            (\<exists>b'. ExpertBoard_status fmt b w = Inr b'))"
proof (intro conjI allI impI)
  fix b'
  assume r: "ExpertBoard_status fmt b w = Inr b'"
  from first_plus_wins[OF r assms]
  show "map_of (getattr b' w) ''comparisonStatus'' = map_of (getattr b w) (kind e)"
    and "\<forall>x\<in>set (experts b). kind x \<noteq> ''leadExpert'' \<longrightarrow> map_of (getattr b' w) (kind x) = None"
    by simp_all
next
  assume "well_formed_summary (experts b) (getattr b w)"
  with assms(2) show "\<exists>b'. ExpertBoard_status fmt b w = Inr b'"
    by (rule ExpertBoard_status_returns)
qed

text \<open>
  A panel where the second expert reports \<^verbatim>\<open>'+'\<close> after the first has validated:
  the final status is the second expert's document and both entries are gone.
\<close>

theorem C1_first_plus_wins_witness:
  "well_formed_summary [norms_expert, fields_expert]
      [(''norms'', validated_doc True ''norms agree''),
       (''fields_in_file'', crashed_doc ''Reference crashed (fields)'')]
   \<and> find (carries_plus (getattr (ex_board [norms_expert, fields_expert]
            [(''norms'', validated_doc True ''norms agree''),
             (''fields_in_file'', crashed_doc ''Reference crashed (fields)'')]) Consistency))
        [norms_expert, fields_expert] = Some fields_expert
   \<and> ''comparisonStatus'' \<notin> kind ` set [norms_expert, fields_expert]
   \<and> final_status Consistency (ExpertBoard_status str_format
        (ex_board [norms_expert, fields_expert]
            [(''norms'', validated_doc True ''norms agree''),
             (''fields_in_file'', crashed_doc ''Reference crashed (fields)'')]) Consistency)
       = Inr (Some (crashed_doc ''Reference crashed (fields)''))
   \<and> final_entry Consistency ''norms'' (ExpertBoard_status str_format
        (ex_board [norms_expert, fields_expert]
            [(''norms'', validated_doc True ''norms agree''),
             (''fields_in_file'', crashed_doc ''Reference crashed (fields)'')]) Consistency)
       = Inr None
   \<and> final_entry Consistency ''fields_in_file'' (ExpertBoard_status str_format
        (ex_board [norms_expert, fields_expert]
            [(''norms'', validated_doc True ''norms agree''),
             (''fields_in_file'', crashed_doc ''Reference crashed (fields)'')]) Consistency)
       = Inr None"
proof -
  let ?b = "ex_board [norms_expert, fields_expert]
            [(''norms'', validated_doc True ''norms agree''),
             (''fields_in_file'', crashed_doc ''Reference crashed (fields)'')]"
  obtain b' where r: "ExpertBoard_status str_format ?b Consistency = Inr b'"
    by (simp add: ex_defs status_eval_defs)
  have e: "experts ?b = [norms_expert, fields_expert]"
    by (simp add: ex_board_def)
  have f: "find (carries_plus (getattr ?b Consistency)) (experts ?b) = Some fields_expert"
    by (simp add: ex_defs getattr_def status_doc_def)
  have k: "''comparisonStatus'' \<notin> kind ` set (experts ?b)"
    by (simp add: ex_defs)
  from C1_first_plus_wins[OF f k, of str_format] r
  have "map_of (getattr b' Consistency) ''comparisonStatus''
          = map_of (getattr ?b Consistency) (kind fields_expert)"
    and "map_of (getattr b' Consistency) (kind norms_expert) = None"
    and "map_of (getattr b' Consistency) (kind fields_expert) = None"
    by (auto simp: ex_board_def norms_expert_def fields_expert_def)
  moreover have "well_formed_summary [norms_expert, fields_expert]
      [(''norms'', validated_doc True ''norms agree''),
       (''fields_in_file'', crashed_doc ''Reference crashed (fields)'')]"
    by (simp add: well_formed_summary_def well_formed_doc_def ex_defs status_doc_def)
  ultimately show ?thesis
    using f k unfolding r e
    by (simp add: final_status_def final_entry_def norms_expert_def fields_expert_def
        ex_board_def getattr_def)
qed

text \<open>
  C1 as stated fails when two experts report \<^verbatim>\<open>'+'\<close> with different texts: the
  document of \<^verbatim>\<open>fields_in_file\<close> carries \<^verbatim>\<open>'+'\<close>, and the final status is the
  document of \<^verbatim>\<open>norms\<close>, the first in the panel, not that of \<^verbatim>\<open>fields_in_file\<close>.
\<close>

theorem C1_two_plus_counterexample:
  "carries_plus (consistency (ex_board [norms_expert, fields_expert]
       [(''norms'', crashed_doc ''Reference crashed (norms)''),
        (''fields_in_file'', crashed_doc ''Reference crashed (fields)'')]))
     fields_expert
   \<and> final_status Consistency (ExpertBoard_status str_format
        (ex_board [norms_expert, fields_expert]
          [(''norms'', crashed_doc ''Reference crashed (norms)''),
           (''fields_in_file'', crashed_doc ''Reference crashed (fields)'')])
        Consistency)
     = Inr (Some (crashed_doc ''Reference crashed (norms)''))
   \<and> crashed_doc ''Reference crashed (norms)'' \<noteq> crashed_doc ''Reference crashed (fields)''"
  by (simp add: ex_defs status_eval_defs)

text \<open>
  C2. The claim: status aggregation never raises, also when a \<^verbatim>\<open>'Validated'\<close> key is
  bound to a value that is neither True nor False. The code: with one non-side expert
  \<^verbatim>\<open>norms\<close> whose consistency document is \<^verbatim>\<open>{'Validated': None}\<close>, neither the
  \<^verbatim>\<open>is True\<close> nor the \<^verbatim>\<open>is False\<close> branch assigns \<^verbatim>\<open>status\<close>, and the update block
  reads the unbound variable: \<^verbatim>\<open>_status\<close> raises UnboundLocalError.
\<close>

theorem C2_status_raises_on_Validated_None:
  "ExpertBoard_status str_format
     \<lparr>experts = [\<lparr>kind = ''norms'', side_expert = False\<rparr>], lead_expert = None,
      task_summary = [],
      consistency = [(''norms'', PDict [(''Validated'', PNone)])],
      continuity = [], calls = []\<rparr> Consistency
   = Inl UnboundLocalError"
  by (simp add: status_eval_defs)

text \<open>
  C3, as amended. Let some non-side expert, whose kind is not the key
  \<^verbatim>\<open>comparisonStatus\<close>, have a document that holds \<^verbatim>\<open>'Validated': False\<close>, and
  let no expert's document carry \<^verbatim>\<open>'+'\<close>. When \<^verbatim>\<open>_status\<close> returns, the final
  \<^verbatim>\<open>comparisonStatus\<close> ranks at least as high as \<^verbatim>\<open>'KO'\<close> (position 4 of
  \<^verbatim>\<open>status_order\<close>): its symbol is \<^verbatim>\<open>'KO'\<close>, \<^verbatim>\<open>'!'\<close> or \<^verbatim>\<open>'+'\<close>. And
  \<^verbatim>\<open>_status\<close> does return on a well-formed summary of a panel where no kind is
  \<^verbatim>\<open>comparisonStatus\<close>.
\<close>

theorem C3_KO_is_a_floor:
  assumes "e \<in> set (experts b)" "\<not> side_expert e" "kind e \<noteq> ''comparisonStatus''"
    "map_of (getattr b w) (kind e) = Some (PDict d)" "map_of d ''Validated'' = Some (PBool False)"
    "\<forall>x\<in>set (experts b). \<not> carries_plus (getattr b w) x"
  shows "(\<forall>b'. ExpertBoard_status fmt b w = Inr b' \<longrightarrow>
            (\<exists>j. cs_rank (getattr b' w) = Some j \<and> 4 \<le> j)
          \<and> comparison_symbol (getattr b' w)
              \<in> {Some (PStr ''KO''), Some (PStr ''!''), Some (PStr ''+'')})
       \<and> (''comparisonStatus'' \<notin> kind ` set (experts b)
            \<and> well_formed_summary (experts b) (getattr b w) \<longrightarrow>
            (\<exists>b'. ExpertBoard_status fmt b w = Inr b'))"
proof (intro conjI allI impI)
  fix b'
  assume r: "ExpertBoard_status fmt b w = Inr b'"
  from KO_is_a_floor[OF r assms]
  show "\<exists>j. cs_rank (getattr b' w) = Some j \<and> 4 \<le> j"
    and "comparison_symbol (getattr b' w) \<in> {Some (PStr ''KO''), Some (PStr ''!''), Some (PStr ''+'')}"
    by simp_all
next
  assume "''comparisonStatus'' \<notin> kind ` set (experts b)
            \<and> well_formed_summary (experts b) (getattr b w)"
  then show "\<exists>b'. ExpertBoard_status fmt b w = Inr b'"
    by (intro ExpertBoard_status_returns) simp_all
qed

text \<open>
  A panel where \<^verbatim>\<open>norms\<close> validates and \<^verbatim>\<open>fields_in_file\<close> does not: the
  aggregation returns \<^verbatim>\<open>'KO'\<close>.
\<close>

theorem C3_KO_is_a_floor_witness:
  "well_formed_summary [norms_expert, fields_expert]
      [(''norms'', validated_doc True ''norms agree''),
       (''fields_in_file'', validated_doc False ''fields agree'')]
   \<and> fields_expert \<in> set [norms_expert, fields_expert] \<and> \<not> side_expert fields_expert
   \<and> kind fields_expert \<noteq> ''comparisonStatus''
   \<and> map_of [(''norms'', validated_doc True ''norms agree''),
              (''fields_in_file'', validated_doc False ''fields agree'')] (kind fields_expert)
       = Some (PDict [(''Validated'', PBool False), (''Validated means'', PStr ''fields agree'')])
   \<and> \<not> carries_plus [(''norms'', validated_doc True ''norms agree''),
              (''fields_in_file'', validated_doc False ''fields agree'')] norms_expert
   \<and> \<not> carries_plus [(''norms'', validated_doc True ''norms agree''),
              (''fields_in_file'', validated_doc False ''fields agree'')] fields_expert
   \<and> final_status Consistency (ExpertBoard_status str_format
        (ex_board [norms_expert, fields_expert]
           [(''norms'', validated_doc True ''norms agree''),
            (''fields_in_file'', validated_doc False ''fields agree'')]) Consistency)
       = Inr (Some (status_doc ''KO'' ''KO'' ''Fail: \"fields agree\" is False''))
   \<and> sym_rank (status_doc ''KO'' ''KO'' ''Fail: \"fields agree\" is False'') = Some 4"
proof -
  let ?s = "[(''norms'', validated_doc True ''norms agree''),
            (''fields_in_file'', validated_doc False ''fields agree'')]"
  let ?b = "ex_board [norms_expert, fields_expert] ?s"
  obtain b' where r: "ExpertBoard_status str_format ?b Consistency = Inr b'"
    by (simp add: ex_defs status_eval_defs)
  have h: "fields_expert \<in> set (experts ?b)" "\<not> side_expert fields_expert"
    "kind fields_expert \<noteq> ''comparisonStatus''"
    "map_of (getattr ?b Consistency) (kind fields_expert)
       = Some (PDict [(''Validated'', PBool False), (''Validated means'', PStr ''fields agree'')])"
    "map_of [(''Validated'', PBool False), (''Validated means'', PStr ''fields agree'')] ''Validated''
       = Some (PBool False)"
    "\<forall>x\<in>set (experts ?b). \<not> carries_plus (getattr ?b Consistency) x"
    by (simp_all add: ex_defs getattr_def)
  from C3_KO_is_a_floor[OF h, of str_format] r
  have "comparison_symbol (getattr b' Consistency)
          \<in> {Some (PStr ''KO''), Some (PStr ''!''), Some (PStr ''+'')}" by simp
  moreover have "final_status Consistency (ExpertBoard_status str_format ?b Consistency)
       = Inr (Some (status_doc ''KO'' ''KO'' ''Fail: \"fields agree\" is False''))"
    by (simp add: ex_defs status_eval_defs)
  moreover have "well_formed_summary [norms_expert, fields_expert] ?s"
    by (simp add: well_formed_summary_def well_formed_doc_def ex_defs)
  ultimately show ?thesis
    using h by (simp add: ex_defs getattr_def sym_rank_def status_doc_def status_order_def)
qed

text \<open>
  C3 as stated fails in two ways. An expert whose kind is the key
  \<^verbatim>\<open>comparisonStatus\<close> loses its document to the default status that
  \<^verbatim>\<open>_status\<close> writes under that key before the loop: the non-side expert's document
  holds \<^verbatim>\<open>'Validated': False\<close>, no document carries \<^verbatim>\<open>'+'\<close>, and the final status is
  \<^verbatim>\<open>'?'\<close>, of rank 2. And a document \<^verbatim>\<open>{'Validated': False}\<close> without
  \<^verbatim>\<open>'Validated means'\<close> makes \<^verbatim>\<open>_status\<close> raise KeyError, so that no status is
  aggregated.
\<close>

theorem C3_reserved_kind_counterexample:
  "\<not> side_expert \<lparr>kind = ''comparisonStatus'', side_expert = False\<rparr>
   \<and> map_of [(''comparisonStatus'', validated_doc False ''fields agree'')]
        (kind \<lparr>kind = ''comparisonStatus'', side_expert = False\<rparr>)
       = Some (PDict [(''Validated'', PBool False), (''Validated means'', PStr ''fields agree'')])
   \<and> \<not> carries_plus [(''comparisonStatus'', validated_doc False ''fields agree'')]
          \<lparr>kind = ''comparisonStatus'', side_expert = False\<rparr>
   \<and> final_status Consistency (ExpertBoard_status str_format
        (ex_board [\<lparr>kind = ''comparisonStatus'', side_expert = False\<rparr>]
           [(''comparisonStatus'', validated_doc False ''fields agree'')]) Consistency)
       = Inr (Some (status_doc ''?'' ''? Unknown ?''
                      ''To be checked: expert has not stated about Validation''))
   \<and> sym_rank (status_doc ''?'' ''? Unknown ?''
                      ''To be checked: expert has not stated about Validation'') = Some 2
   \<and> sym_rank (status_doc ''KO'' ''KO'' ''Fail: \"fields agree\" is False'') = Some 4
   \<and> ExpertBoard_status str_format
        (ex_board [fields_expert] [(''fields_in_file'', PDict [(''Validated'', PBool False)])])
        Consistency
       = Inl KeyError"
  by (simp add: ex_defs status_eval_defs sym_rank_def)

text \<open>
  C7, as amended. Let a side expert's document be a dictionary that does not carry the
  symbol \<^verbatim>\<open>'+'\<close>; let no non-side expert share its kind, let the kind not be the key
  \<^verbatim>\<open>comparisonStatus\<close>, and let the summary hold at least one other entry. Then
  \<^verbatim>\<open>_status\<close> on the summary without that document ends as on the summary with it:
  with the same exception, or with the same \<^verbatim>\<open>comparisonStatus\<close> (symbol, short
  and text). And the document is retained: when \<^verbatim>\<open>_status\<close> returns, no expert's
  document carries \<^verbatim>\<open>'+'\<close> and the side expert's kind is not the key
  \<^verbatim>\<open>leadExpert\<close>, which is written last, the final summary still holds the side
  expert's document under its kind.
\<close>

theorem C7_side_expert_is_ignored:
  assumes "e \<in> set (experts b)" "side_expert e"
    "\<forall>y\<in>set (experts b). kind y = kind e \<longrightarrow> side_expert y"
    "kind e \<noteq> ''comparisonStatus''"
    "map_of (getattr b w) (kind e) = Some (PDict d)" "map_of d ''symbol'' \<noteq> Some (PStr ''+'')"
    "AList.delete (kind e) (getattr b w) \<noteq> []"
  shows "final_status w (ExpertBoard_status fmt (setattr b w (AList.delete (kind e) (getattr b w))) w)
           = final_status w (ExpertBoard_status fmt b w)
       \<and> (\<forall>b'. ExpertBoard_status fmt b w = Inr b'
              \<and> list_all (\<lambda>x. \<not> carries_plus (getattr b w) x) (experts b)
              \<and> kind e \<noteq> ''leadExpert''
            \<longrightarrow> map_of (getattr b' w) (kind e) = Some (PDict d))"
proof (intro conjI allI impI)
  show "final_status w (ExpertBoard_status fmt (setattr b w (AList.delete (kind e) (getattr b w))) w)
           = final_status w (ExpertBoard_status fmt b w)"
    using assms by (rule side_expert_is_ignored)
next
  fix b'
  assume a: "ExpertBoard_status fmt b w = Inr b'
              \<and> list_all (\<lambda>x. \<not> carries_plus (getattr b w) x) (experts b)
              \<and> kind e \<noteq> ''leadExpert''"
  then have "\<forall>x\<in>set (experts b). \<not> carries_plus (getattr b w) x"
    by (simp add: list_all_iff)
  with a have "map_of (getattr b' w) (kind e) = map_of (getattr b w) (kind e)"
    using assms(4) by (intro documents_retained[of fmt]) simp_all
  with assms(5) show "map_of (getattr b' w) (kind e) = Some (PDict d)" by simp
qed

text \<open>
  A side expert \<^verbatim>\<open>setup\<close> beside \<^verbatim>\<open>norms\<close>: with or without the document of
  \<^verbatim>\<open>setup\<close> the status is the \<^verbatim>\<open>'OK'\<close> of \<^verbatim>\<open>norms\<close>, and the document of
  \<^verbatim>\<open>setup\<close> is still in the final summary.
\<close>

theorem C7_side_expert_is_ignored_witness:
  "setup_expert \<in> set [setup_expert, norms_expert] \<and> side_expert setup_expert
   \<and> \<not> side_expert norms_expert \<and> kind norms_expert \<noteq> kind setup_expert
   \<and> kind setup_expert \<noteq> ''comparisonStatus''
   \<and> AList.delete (kind setup_expert)
        [(''setup'', PDict [(''Compiler'', PStr ''gfortran'')]),
         (''norms'', validated_doc True ''norms agree'')] \<noteq> []
   \<and> final_status Consistency (ExpertBoard_status str_format
        (ex_board [setup_expert, norms_expert]
           [(''norms'', validated_doc True ''norms agree'')]) Consistency)
     = final_status Consistency (ExpertBoard_status str_format
        (ex_board [setup_expert, norms_expert]
           [(''setup'', PDict [(''Compiler'', PStr ''gfortran'')]),
            (''norms'', validated_doc True ''norms agree'')]) Consistency)
   \<and> final_status Consistency (ExpertBoard_status str_format
        (ex_board [setup_expert, norms_expert]
           [(''setup'', PDict [(''Compiler'', PStr ''gfortran'')]),
            (''norms'', validated_doc True ''norms agree'')]) Consistency)
     = Inr (Some (status_doc ''OK'' ''OK'' ''Success: \"norms agree\"''))
   \<and> list_all (\<lambda>x. \<not> carries_plus
           [(''setup'', PDict [(''Compiler'', PStr ''gfortran'')]),
            (''norms'', validated_doc True ''norms agree'')] x) [setup_expert, norms_expert]
   \<and> kind setup_expert \<noteq> ''leadExpert''
   \<and> final_entry Consistency ''setup'' (ExpertBoard_status str_format
        (ex_board [setup_expert, norms_expert]
           [(''setup'', PDict [(''Compiler'', PStr ''gfortran'')]),
            (''norms'', validated_doc True ''norms agree'')]) Consistency)
     = Inr (Some (PDict [(''Compiler'', PStr ''gfortran'')]))"
proof -
  let ?s = "[(''setup'', PDict [(''Compiler'', PStr ''gfortran'')]),
            (''norms'', validated_doc True ''norms agree'')]"
  let ?b = "ex_board [setup_expert, norms_expert] ?s"
  have h: "setup_expert \<in> set (experts ?b)" "side_expert setup_expert"
    "\<forall>y\<in>set (experts ?b). kind y = kind setup_expert \<longrightarrow> side_expert y"
    "kind setup_expert \<noteq> ''comparisonStatus''"
    "map_of (getattr ?b Consistency) (kind setup_expert) = Some (PDict [(''Compiler'', PStr ''gfortran'')])"
    "map_of [(''Compiler'', PStr ''gfortran'')] ''symbol'' \<noteq> Some (PStr ''+'')"
    "AList.delete (kind setup_expert) (getattr ?b Consistency) \<noteq> []"
    by (simp_all add: ex_defs getattr_def)
  have d: "setattr ?b Consistency (AList.delete (kind setup_expert) (getattr ?b Consistency))
           = ex_board [setup_expert, norms_expert] [(''norms'', validated_doc True ''norms agree'')]"
    by (simp add: ex_defs getattr_def setattr_def)
  obtain b' where r: "ExpertBoard_status str_format ?b Consistency = Inr b'"
    by (simp add: ex_defs status_eval_defs)
  have g: "list_all (\<lambda>x. \<not> carries_plus (getattr ?b Consistency) x) (experts ?b)"
      "kind setup_expert \<noteq> ''leadExpert''"
    by (simp_all add: ex_defs getattr_def)
  have o: "final_status Consistency (ExpertBoard_status str_format ?b Consistency)
     = Inr (Some (status_doc ''OK'' ''OK'' ''Success: \"norms agree\"''))"
    by (simp add: ex_defs status_eval_defs)
  from C7_side_expert_is_ignored[OF h, of str_format] r g
  have e: "final_status Consistency (ExpertBoard_status str_format
              (setattr ?b Consistency (AList.delete (kind setup_expert) (getattr ?b Consistency)))
              Consistency)
           = final_status Consistency (ExpertBoard_status str_format ?b Consistency)"
    and k: "map_of (getattr b' Consistency) (kind setup_expert)
           = Some (PDict [(''Compiler'', PStr ''gfortran'')])"
    by blast+
  have k': "final_entry Consistency ''setup'' (ExpertBoard_status str_format ?b Consistency)
           = Inr (Some (PDict [(''Compiler'', PStr ''gfortran'')]))"
    using k unfolding r by (simp add: final_entry_def setup_expert_def)
  from e[unfolded d] o k' g show ?thesis
    by (simp add: ex_defs getattr_def)
qed

text \<open>
  C7 as stated fails when the side expert's document carries \<^verbatim>\<open>'+'\<close>: the test for
  \<^verbatim>\<open>'+'\<close> comes before the test of \<^verbatim>\<open>side_expert\<close>. With the document of the
  side expert \<^verbatim>\<open>setup\<close> the status is its \<^verbatim>\<open>'+'\<close>; without it, the \<^verbatim>\<open>'OK'\<close> of
  \<^verbatim>\<open>norms\<close>.
\<close>

theorem C7_side_plus_counterexample:
  "side_expert setup_expert
   \<and> final_status Consistency (ExpertBoard_status str_format
        (ex_board [setup_expert, norms_expert]
           [(''setup'', crashed_doc ''Reference crashed''),
            (''norms'', validated_doc True ''norms agree'')]) Consistency)
     = Inr (Some (crashed_doc ''Reference crashed''))
   \<and> final_status Consistency (ExpertBoard_status str_format
        (ex_board [setup_expert, norms_expert]
           (AList.delete ''setup''
             [(''setup'', crashed_doc ''Reference crashed''),
              (''norms'', validated_doc True ''norms agree'')])) Consistency)
     = Inr (Some (status_doc ''OK'' ''OK'' ''Success: \"norms agree\"''))"
  by (simp add: ex_defs status_eval_defs)

text \<open>
  C8. Called with both reference arguments \<^verbatim>\<open>None\<close> or empty, \<^verbatim>\<open>process\<close> raises
  only what \<^verbatim>\<open>parse\<close> raises; when it returns, the methods entered are
  \<^verbatim>\<open>process\<close>, \<^verbatim>\<open>parse\<close>, \<^verbatim>\<open>_notify_no_ref_resource\<close> twice and \<^verbatim>\<open>dump\<close>, so
  \<^verbatim>\<open>compare\<close> is not among them, and both summaries hold the status \<^verbatim>\<open>'0'\<close> with
  the text \<^verbatim>\<open>No reference to be compared to\<close>.
\<close>

theorem C8_no_reference:
  assumes "consistency_refs \<in> {None, Some []}" "continuity_refs \<in> {None, Some []}"
  shows "case ExpertBoard_process fmt parse_of compare_of now b consistency_refs continuity_refs of
           Inl err \<Rightarrow> ExpertBoard_parse parse_of (b\<lparr>calls := calls b @ [''process'']\<rparr>) = Inl err
         | Inr b' \<Rightarrow>
             calls b' = calls b @ [''process'', ''parse'', ''_notify_no_ref_resource'',
                                   ''_notify_no_ref_resource'', ''dump'']
           \<and> ''compare'' \<notin> set (drop (length (calls b)) (calls b'))
           \<and> map_of (consistency b') ''comparisonStatus'' = Some no_ref_status
           \<and> map_of (continuity b') ''comparisonStatus'' = Some no_ref_status"
proof -
  have t: "\<not> truthy consistency_refs" "\<not> truthy continuity_refs"
    using assms by (auto simp: truthy_def)
  show ?thesis
  proof (cases "ExpertBoard_parse parse_of (b\<lparr>calls := calls b @ [''process'']\<rparr>)")
    case (Inl err)
    then show ?thesis by (simp add: ExpertBoard_process_def Let_def and_then_def)
  next
    case (Inr b1)
    then have c: "calls b1 = calls b @ [''process'', ''parse'']"
      by (auto simp: ExpertBoard_parse_def Let_def and_then_Inr)
    show ?thesis
      using Inr t c
      by (simp add: ExpertBoard_process_def Let_def and_then_def ExpertBoard_dump_def
          ExpertBoard_notify_no_ref_resource_def getattr_def setattr_def update_conv' no_ref_status_def)
  qed
qed


text \<open>A board of two experts, processed with \<^verbatim>\<open>None\<close> and an empty list.\<close>

theorem C8_no_reference_witness:
  "ExpertBoard_process str_format (\<lambda>e. Inr (PDict [])) (\<lambda>e (refs :: unit list). Inr (PDict []))
     ''2020-01-01T00:00:00'' (ex_board [norms_expert, setup_expert] []) None (Some [])
   = Inr \<lparr>experts = [norms_expert, setup_expert], lead_expert = None,
          task_summary = [(''norms'', PDict []), (''setup'', PDict []),
                          (''Updated'', PStr ''2020-01-01T00:00:00'')],
          consistency = [(''comparisonStatus'', no_ref_status)],
          continuity = [(''comparisonStatus'', no_ref_status)],
          calls = [''process'', ''parse'', ''_notify_no_ref_resource'',
                   ''_notify_no_ref_resource'', ''dump'']\<rparr>
   \<and> ''compare'' \<notin> set [''process'', ''parse'', ''_notify_no_ref_resource'',
                   ''_notify_no_ref_resource'', ''dump'']"
  using C8_no_reference[where consistency_refs = None and continuity_refs = "Some []"
      and fmt = str_format and parse_of = "\<lambda>e. Inr (PDict [])"
      and compare_of = "\<lambda>e (refs :: unit list). Inr (PDict [])" and now = "''2020-01-01T00:00:00''"
      and b = "ex_board [norms_expert, setup_expert] []"]
  by (simp add: ExpertBoard_process_def Let_def and_then_def ExpertBoard_dump_def
          ExpertBoard_parse_def ExpertBoard_notify_no_ref_resource_def getattr_def setattr_def
          no_ref_status_def ex_defs truthy_def)

section \<open>Field comparison: lemmas\<close>

lemma ignore_field_is_string: "ignore_field f \<Longrightarrow> is_string f"
  by (cases f) (simp_all add: ignore_field_def is_string_def)

lemma fields_loop_all_ignored:
  "list_all ignore_field fs \<Longrightarrow> fields_loop E ep fm t r im hide thr fatal fs x = Inr x"
  by (induction fs) (auto split: prod.splits)

lemma sorted_fids_set:
  assumes "sorted_fids xs = Inr ys"
  shows "set ys = set xs"
proof -
  let ?g = "\<lambda>v. case v of PStr s \<Rightarrow> s | _ \<Rightarrow> []"
  from assms have a: "list_all is_string xs"
    and ys: "ys = map PStr (sort (map ?g xs))"
    by (simp_all add: sorted_fids_def split: if_splits)
  have "\<And>x. x \<in> set xs \<Longrightarrow> PStr (?g x) = x"
  proof -
    fix x assume "x \<in> set xs"
    with a have "is_string x" by (simp add: list_all_iff)
    then show "PStr (?g x) = x" by (cases x) (simp_all add: is_string_def)
  qed
  then have "(\<lambda>x. PStr (?g x)) ` set xs = (\<lambda>x. x) ` set xs"
    by (rule image_cong[OF refl])
  then show ?thesis by (simp add: ys image_image)
qed

lemma sorted_fids_total: "list_all is_string xs \<Longrightarrow> \<exists>ys. sorted_fids xs = Inr ys"
  by (simp add: sorted_fids_def)

lemma common_fields_set:
  assumes "common_fields t r = Inr fs"
  shows "set fs = set (listfields t) \<inter> set (listfields r)"
proof -
  let ?i = "filter (\<lambda>f. f \<in> set (listfields r)) (listfields t)"
  have i: "set ?i = set (listfields t) \<inter> set (listfields r)" by auto
  show ?thesis
  proof (cases "length ?i > 0 \<and> is_string (hd ?i)")
    case True
    with assms have "sorted_fids ?i = Inr fs" by (simp add: common_fields_def Let_def)
    from sorted_fids_set[OF this] i show ?thesis by simp
  next
    case False
    with assms have "fs = ?i" by (auto simp: common_fields_def Let_def)
    with i show ?thesis by simp
  qed
qed

lemma compare_2_files_alt:
  "compare_2_files E ep fm t r im io hide vb thr fatal =
     and_then (common_fields t r) (\<lambda>intersection.
     and_then (fields_loop E ep fm t r im hide thr fatal intersection ([], 0, []))
       (\<lambda>(fields_status, max_normalized_diff, uncompared_fields).
         Inr \<lparr>comp_Validated =
                 (if \<not> io \<and> length (filter (\<lambda>f. f \<notin> set (listfields r)) (listfields t)
                                      @ filter (\<lambda>f. f \<notin> set (listfields t)) (listfields r)) > 0
                  then False
                  else list_all (\<lambda>status. get_default (Validated status) False) (map snd fields_status)),
               comp_Validated_means =
                 (if \<not> io
                  then (if vb
                      then ''All fields have identical shape/mask than reference, and data is bit-repro''
                      else ''All fields have identical shape/mask than reference,'' @ '' '' @
                           ''and normalized errors lower than '' @ format_float fm thr)
                       @ '', and no field is orphan on one or the other side.''
                  else (if vb
                      then ''All fields have identical shape/mask than reference, and data is bit-repro''
                      else ''All fields have identical shape/mask than reference,'' @ '' '' @
                           ''and normalized errors lower than '' @ format_float fm thr)),
               Bit_reproducible =
                   list_all (\<lambda>status. get_default (Data_bit_repro status) False
                                      \<and> get_default (Validity_diff status) PNone = PNone
                                      \<and> get_default (Geometry_diff status) PNone = PNone)
                            (map snd fields_status),
               Common_fields_differences = fields_status,
               Max_normalized_diff = format_percent fm max_normalized_diff,
               mainMetrics = ''Max normalized diff'',
               New_fields = none_if_empty (filter (\<lambda>f. f \<notin> set (listfields r)) (listfields t)),
               Lost_fields = none_if_empty (filter (\<lambda>f. f \<notin> set (listfields t)) (listfields r)),
               Unable_to_compare_fields = none_if_empty uncompared_fields\<rparr>))"
  unfolding compare_2_files_def common_fields_def Let_def
  by (rule refl)

lemma common_fields_all_ignored:
  assumes "\<forall>f\<in>set (listfields t). f \<in> set (listfields r) \<longrightarrow> ignore_field f"
  shows "\<exists>fs. common_fields t r = Inr fs \<and> list_all ignore_field fs"
proof -
  let ?i = "filter (\<lambda>f. f \<in> set (listfields r)) (listfields t)"
  have i: "list_all ignore_field ?i" using assms by (auto simp: list_all_iff)
  then have "list_all is_string ?i"
    by (auto simp: list_all_iff dest: ignore_field_is_string)
  then obtain ys where ys: "sorted_fids ?i = Inr ys" using sorted_fids_total by blast
  then have "list_all ignore_field ys"
    using i sorted_fids_set[OF ys] by (simp add: list_all_iff)
  with ys i show ?thesis by (auto simp: common_fields_def Let_def)
qed

lemma compare_2_fields_cong:
  "readfield t f = readfield t' f \<Longrightarrow> readfield r f = readfield r' f \<Longrightarrow>
   compare_2_fields E ep t r f m im vb thr = compare_2_fields E ep t' r' f m im vb thr"
  by (simp add: compare_2_fields_def)

lemma fields_loop_cong:
  assumes "\<forall>f\<in>set fs. \<not> ignore_field f \<longrightarrow> readfield t f = readfield t' f \<and> readfield r f = readfield r' f"
  shows "fields_loop E ep fm t r im hide thr fatal fs x = fields_loop E ep fm t' r' im hide thr fatal fs x"
  using assms
proof (induction fs arbitrary: x)
  case Nil
  then show ?case by simp
next
  case (Cons f fs)
  obtain d m u where x: "x = (d, m, u)" by (cases x)
  show ?case
  proof (cases "ignore_field f")
    case True
    with Cons x show ?thesis by simp
  next
    case False
    with Cons.prems have c: "compare_2_fields E ep t r f m im True thr = compare_2_fields E ep t' r' f m im True thr"
      by (intro compare_2_fields_cong) simp_all
    have ih: "\<And>y. fields_loop E ep fm t r im hide thr fatal fs y = fields_loop E ep fm t' r' im hide thr fatal fs y"
      using Cons by simp
    show ?thesis using False x by (simp add: c ih)
  qed
qed

lemma fields_loop_uncompared:
  assumes "fields_loop E ep fm t r im hide thr fatal fs (d, m, u) = Inr (d', m', u')"
  shows "set u' \<subseteq> set u \<union> {f \<in> set fs. \<not> ignore_field f}"
  using assms
proof (induction fs arbitrary: d m u)
  case Nil
  then show ?case by simp
next
  case (Cons f fs)
  show ?case
  proof (cases "ignore_field f")
    case True
    with Cons.prems have "fields_loop E ep fm t r im hide thr fatal fs (d, m, u) = Inr (d', m', u')"
      by simp
    from Cons.IH[OF this] show ?thesis by auto
  next
    case False
    from False Cons.prems obtain d1 m1 u1 where
      1: "fields_loop E ep fm t r im hide thr fatal fs (d1, m1, u1) = Inr (d', m', u')"
      and 2: "u1 = u \<or> u1 = u @ [f]"
      by (cases "compare_2_fields E ep t r f m im True thr")
         (auto simp: and_then_def split: if_splits)
    from Cons.IH[OF 1] 2 False show ?thesis by auto
  qed
qed

lemma fields_loop_keys:
  assumes "fields_loop E ep fm t r im hide thr fatal fs (d, m, u) = Inr (d', m', u')"
  shows "fst ` set d' \<subseteq> fst ` set d \<union> str_value fm ` {f \<in> set fs. \<not> ignore_field f}"
  using assms
proof (induction fs arbitrary: d m u)
  case Nil
  then show ?case by simp
next
  case (Cons f fs)
  show ?case
  proof (cases "ignore_field f")
    case True
    with Cons.prems have "fields_loop E ep fm t r im hide thr fatal fs (d, m, u) = Inr (d', m', u')"
      by simp
    from Cons.IH[OF this] show ?thesis by auto
  next
    case False
    have "\<exists>d1 m1 u1. fields_loop E ep fm t r im hide thr fatal fs (d1, m1, u1) = Inr (d', m', u')
            \<and> fst ` set d1 \<subseteq> insert (str_value fm f) (fst ` set d)"
    proof (cases "compare_2_fields E ep t r f m im True thr")
      case (Inl e)
      let ?st = "empty_status\<lparr>Error_during_comparison := Some (str_exception fm e)\<rparr>"
      let ?d1 = "if \<not> get_default (Data_bit_repro ?st) False \<or> \<not> hide
                 then AList.update (str_value fm f) ?st d else d"
      from Inl False Cons.prems
      have "fields_loop E ep fm t r im hide thr fatal fs (?d1, m, u @ [f]) = Inr (d', m', u')"
        by (auto simp: and_then_def split: if_splits)
      moreover have "fst ` set ?d1 \<subseteq> insert (str_value fm f) (fst ` set d)"
        by (auto simp: dom_update)
      ultimately show ?thesis by blast
    next
      case (Inr p)
      obtain st m1 where p: "p = (st, m1)" by (cases p)
      let ?d1 = "if \<not> get_default (Data_bit_repro st) False \<or> \<not> hide
                 then AList.update (str_value fm f) st d else d"
      from Inr p False Cons.prems
      have "fields_loop E ep fm t r im hide thr fatal fs (?d1, m1, u) = Inr (d', m', u')"
        by (simp add: and_then_def)
      moreover have "fst ` set ?d1 \<subseteq> insert (str_value fm f) (fst ` set d)"
        by (auto simp: dom_update)
      ultimately show ?thesis by blast
    qed
    then obtain d1 m1 u1 where
      1: "fields_loop E ep fm t r im hide thr fatal fs (d1, m1, u1) = Inr (d', m', u')"
      and 2: "fst ` set d1 \<subseteq> insert (str_value fm f) (fst ` set d)"
      by blast
    have s: "{x \<in> set (f # fs). \<not> ignore_field x} = insert f {x \<in> set fs. \<not> ignore_field x}"
      using False by auto
    from Cons.IH[OF 1] 2 show ?thesis
      unfolding s image_insert by blast
  qed
qed

lemma compare_data_mono:
  assumes "compare_data EPSILON ep tfld rfld status validated m vb thr = Inr (st, m')"
  shows "m \<le> m'"
proof (cases "data_shape tfld \<noteq> data_shape rfld")
  case True
  with assms show ?thesis by (simp add: compare_data_def)
next
  case shape: False
  show ?thesis
  proof (cases "data_bit_repro EPSILON tfld rfld")
    case True
    with shape assms show ?thesis by (simp add: compare_data_def)
  next
    case False
    show ?thesis
    proof (cases "normalized_comparison ep tfld rfld")
      case (Inl e)
      with shape False assms show ?thesis by (simp add: compare_data_def and_then_def)
    next
      case (Inr p)
      obtain dd cm where p: "p = (dd, cm)" by (cases p)
      show ?thesis
      proof (cases "py_max (map (\<lambda>v. \<bar>v\<bar>) (map snd dd))")
        case (Inl e)
        with shape False assms Inr p show ?thesis by (simp add: compare_data_def and_then_def)
      next
        case loc: (Inr loc_max)
        with shape False assms Inr p
        have "m' = (if loc_max > m then loc_max else m)"
          by (simp add: compare_data_def and_then_def Let_def)
        then show ?thesis by simp
      qed
    qed
  qed
qed

lemma compare_2_fields_mono:
  assumes "compare_2_fields EPSILON ep t r fid m im vb thr = Inr (st, m')"
  shows "m \<le> m'"
  using assms unfolding compare_2_fields_def and_then_Inr Let_def
  by (blast dest: compare_data_mono)

lemma fields_loop_append:
  "fields_loop E ep fm t r im hide thr fatal (fs1 @ fs2) x
   = and_then (fields_loop E ep fm t r im hide thr fatal fs1 x)
              (fields_loop E ep fm t r im hide thr fatal fs2)"
proof (induction fs1 arbitrary: x)
  case Nil
  then show ?case by (simp add: and_then_def)
next
  case (Cons f fs1)
  obtain d m u where x: "x = (d, m, u)" by (cases x)
  show ?case
  proof (cases "ignore_field f")
    case True
    then show ?thesis using Cons x by simp
  next
    case False
    show ?thesis
      using False Cons x
      by (cases "compare_2_fields E ep t r f m im True thr")
         (auto simp: and_then_def split: prod.splits)
  qed
qed

lemma fields_loop_mono:
  assumes "fields_loop E ep fm t r im hide thr fatal fs (d, m, u) = Inr (d', m', u')"
  shows "m \<le> m'"
  using assms
proof (induction fs arbitrary: d m u)
  case Nil
  then show ?case by simp
next
  case (Cons f fs)
  show ?case
  proof (cases "ignore_field f")
    case True
    with Cons show ?thesis by simp
  next
    case False
    show ?thesis
    proof (cases "compare_2_fields E ep t r f m im True thr")
      case (Inl e)
      with False Cons.prems have "\<exists>d1 u1. fields_loop E ep fm t r im hide thr fatal fs (d1, m, u1) = Inr (d', m', u')"
        by (auto simp: and_then_def split: if_splits)
      with Cons.IH show ?thesis by blast
    next
      case (Inr p)
      obtain st m1 where p: "p = (st, m1)" by (cases p)
      from Inr p have "m \<le> m1" by (auto dest: compare_2_fields_mono)
      moreover from False Cons.prems Inr p
      have "\<exists>d1 u1. fields_loop E ep fm t r im hide thr fatal fs (d1, m1, u1) = Inr (d', m', u')"
        by (auto simp: and_then_def split: if_splits)
      with Cons.IH have "m1 \<le> m'" by blast
      ultimately show ?thesis by simp
    qed
  qed
qed

section \<open>Field comparison: results\<close>

lemmas fields_eval_defs =
  compare_2_files_def compare_2_fields_def compare_data_def data_bit_repro_def
  isinstance_int_float_def ignore_field_def is_string_def sorted_fids_def none_if_empty_def
  get_default_def empty_status_def and_then_def ex_fld_def ex_resource_def ex_epygram_def
  ex_formatting_def str_format_def Let_def

text \<open>
  C4. The claim: for floating-point data the \<^verbatim>\<open>'Data bit-repro'\<close> flag is equality
  up to \<^verbatim>\<open>EPSILON\<close>. The code: the test \<^verbatim>\<open>isinstance(tfld.data.dtype, (int, float))\<close>
  that guards the tolerance never holds, so the data are compared with \<^verbatim>\<open>==\<close>. Two
  floating-point arrays that differ by half of \<^verbatim>\<open>EPSILON\<close> (taken as 1/1000 here)
  in one element are reported as not bit-reproducible.
\<close>

theorem C4_tolerance_not_applied:
  "data_dtype (ex_fld Floating (PStr ''t0'') [2] [0, 1 + 1 / 2000]) = Floating
   \<and> list_all (\<lambda>(a, b). \<bar>a - b\<bar> \<le> 1 / 1000) (zip [0, 1 + 1 / 2000] [0, 1 :: real])
   \<and> map_sum id (\<lambda>(status, m). Data_bit_repro status)
        (compare_2_fields (1 / 1000)
           (ex_epygram (\<lambda>t r. [(''bias'', 1 / 4000), (''std'', 1 / 4000), (''errmax'', 1 / 2000)]))
           (ex_resource [(PStr ''T'', ex_fld Floating (PStr ''t0'') [2] [0, 1 + 1 / 2000])])
           (ex_resource [(PStr ''T'', ex_fld Floating (PStr ''t0'') [2] [0, 1])])
           (PStr ''T'') 0 False True (5 / 100))
     = Inr (Some False)"
  by (simp add: fields_eval_defs)

text \<open>
  C5. The claim: \<^verbatim>\<open>hide_bit_repro_fields\<close> changes neither file-level boolean. The
  code: a field whose data are bit-reproducible is left out of \<^verbatim>\<open>fields_status\<close>
  when the option is on, and both booleans are taken over \<^verbatim>\<open>fields_status\<close>. For
  a file pair whose one common field has equal data and a validity that differs, the
  booleans are (True, True) with the option and (False, False) without it.
\<close>

theorem C5_hiding_changes_the_aggregates:
  "map_sum id (\<lambda>comp. (comp_Validated comp, Bit_reproducible comp))
        (compare_2_files (1 / 1000) (ex_epygram (\<lambda>t r. [])) ex_formatting
           (ex_resource [(PStr ''T'', ex_fld Floating (PStr ''2020-01-02'') [2] [0, 1])])
           (ex_resource [(PStr ''T'', ex_fld Floating (PStr ''2020-01-01'') [2] [0, 1])])
           False False True True (5 / 100) True)
     = Inr (True, True)
   \<and> map_sum id (\<lambda>comp. (comp_Validated comp, Bit_reproducible comp))
        (compare_2_files (1 / 1000) (ex_epygram (\<lambda>t r. [])) ex_formatting
           (ex_resource [(PStr ''T'', ex_fld Floating (PStr ''2020-01-02'') [2] [0, 1])])
           (ex_resource [(PStr ''T'', ex_fld Floating (PStr ''2020-01-01'') [2] [0, 1])])
           False False False True (5 / 100) True)
     = Inr (False, False)"
  by (simp add: fields_eval_defs)

text \<open>
  C6, as amended. A field that \<^verbatim>\<open>ignore_field\<close> accepts is never compared:
  \<^verbatim>\<open>compare_2_files\<close> returns the same on files that differ only in what reading
  ignored fields gives; such a field is never listed in
  \<^verbatim>\<open>'Unable to compare fields'\<close>, and every key of
  \<^verbatim>\<open>'Common fields differences'\<close> is the name of a common field that is not
  ignored. The orphan lists are not filtered: \<^verbatim>\<open>'New fields'\<close> and
  \<^verbatim>\<open>'Lost fields'\<close> hold every field present on one side only, and when one of
  them is not empty and \<^verbatim>\<open>ignore_orphan_fields\<close> is off, \<^verbatim>\<open>'Validated'\<close> is False.
\<close>

theorem C6_ignored_fields_are_not_compared:
  assumes "listfields t' = listfields t" "listfields r' = listfields r"
    "\<forall>f. \<not> ignore_field f \<longrightarrow> readfield t' f = readfield t f \<and> readfield r' f = readfield r f"
  shows "compare_2_files EPSILON ep fm t' r' im io hide vb thr fatal
           = compare_2_files EPSILON ep fm t r im io hide vb thr fatal
       \<and> (\<forall>comp. compare_2_files EPSILON ep fm t r im io hide vb thr fatal = Inr comp \<longrightarrow>
            (\<forall>f\<in>set (get_default (Unable_to_compare_fields comp) []). \<not> ignore_field f)
          \<and> (\<forall>k\<in>fst ` set (Common_fields_differences comp).
                \<exists>f\<in>set (listfields t) \<inter> set (listfields r). \<not> ignore_field f \<and> k = str_value fm f)
          \<and> New_fields comp = none_if_empty (filter (\<lambda>f. f \<notin> set (listfields r)) (listfields t))
          \<and> Lost_fields comp = none_if_empty (filter (\<lambda>f. f \<notin> set (listfields t)) (listfields r))
          \<and> (\<not> io \<and> (New_fields comp \<noteq> None \<or> Lost_fields comp \<noteq> None) \<longrightarrow> \<not> comp_Validated comp))"
proof (intro conjI allI impI)
  have c: "common_fields t' r' = common_fields t r"
    using assms(1,2) by (simp add: common_fields_def)
  have l: "\<And>fs x. fields_loop EPSILON ep fm t' r' im hide thr fatal fs x
                 = fields_loop EPSILON ep fm t r im hide thr fatal fs x"
    using assms(3) by (intro fields_loop_cong) simp
  show "compare_2_files EPSILON ep fm t' r' im io hide vb thr fatal
           = compare_2_files EPSILON ep fm t r im io hide vb thr fatal"
    unfolding compare_2_files_alt c l assms(1,2) by (rule refl)
next
  fix comp
  assume a: "compare_2_files EPSILON ep fm t r im io hide vb thr fatal = Inr comp"
  then obtain fs where fs: "common_fields t r = Inr fs"
    by (cases "common_fields t r") (simp_all add: compare_2_files_alt and_then_def)
  from a fs obtain x where lp0: "fields_loop EPSILON ep fm t r im hide thr fatal fs ([], 0, []) = Inr x"
    by (cases "fields_loop EPSILON ep fm t r im hide thr fatal fs ([], 0, [])")
       (simp_all add: compare_2_files_alt and_then_def)
  obtain d m u where x: "x = (d, m, u)" by (cases x)
  note lp = lp0[unfolded x]
  have u: "Unable_to_compare_fields comp = none_if_empty u"
    using arg_cong[OF a, of "map_sum id Unable_to_compare_fields"]
    by (simp add: compare_2_files_alt fs lp and_then_def)
  have d: "Common_fields_differences comp = d"
    using arg_cong[OF a, of "map_sum id Common_fields_differences"]
    by (simp add: compare_2_files_alt fs lp and_then_def)
  have n: "New_fields comp = none_if_empty (filter (\<lambda>f. f \<notin> set (listfields r)) (listfields t))"
    using arg_cong[OF a, of "map_sum id New_fields"]
    by (simp add: compare_2_files_alt fs lp and_then_def)
  have lo: "Lost_fields comp = none_if_empty (filter (\<lambda>f. f \<notin> set (listfields t)) (listfields r))"
    using arg_cong[OF a, of "map_sum id Lost_fields"]
    by (simp add: compare_2_files_alt fs lp and_then_def)
  have v: "\<not> io \<and> length (filter (\<lambda>f. f \<notin> set (listfields r)) (listfields t)
                                      @ filter (\<lambda>f. f \<notin> set (listfields t)) (listfields r)) > 0
             \<longrightarrow> \<not> comp_Validated comp"
    using arg_cong[OF a, of "map_sum id comp_Validated"]
    by (auto simp: compare_2_files_alt fs lp and_then_def split: if_splits)
  have gu: "set (get_default (Unable_to_compare_fields comp) []) = set u"
    by (simp add: u none_if_empty_def get_default_def)
  show "\<forall>f\<in>set (get_default (Unable_to_compare_fields comp) []). \<not> ignore_field f"
    using fields_loop_uncompared[OF lp] gu by auto
  show "\<forall>k\<in>fst ` set (Common_fields_differences comp).
                \<exists>f\<in>set (listfields t) \<inter> set (listfields r). \<not> ignore_field f \<and> k = str_value fm f"
    using fields_loop_keys[OF lp] common_fields_set[OF fs] d by auto
  show "New_fields comp = none_if_empty (filter (\<lambda>f. f \<notin> set (listfields r)) (listfields t))"
    by (rule n)
  show "Lost_fields comp = none_if_empty (filter (\<lambda>f. f \<notin> set (listfields t)) (listfields r))"
    by (rule lo)
  show "\<not> comp_Validated comp" if "\<not> io \<and> (New_fields comp \<noteq> None \<or> Lost_fields comp \<noteq> None)"
    using that v n lo by (auto simp: none_if_empty_def split: if_splits)
qed

text \<open>
  Two files that differ only in the data of the ignored field \<^verbatim>\<open>SFX._FBUF_0001\<close>
  compare as the reference with itself: validated and bit-reproducible.
\<close>

theorem C6_ignored_fields_are_not_compared_witness:
  "ignore_field (PStr ''SFX._FBUF_0001'')
   \<and> compare_2_files (1 / 1000) (ex_epygram (\<lambda>t r. [])) ex_formatting
        (ex_resource [(PStr ''SFX._FBUF_0001'', ex_fld Floating (PStr ''t0'') [1] [1]),
                      (PStr ''T'', ex_fld Floating (PStr ''t0'') [1] [2])])
        (ex_resource [(PStr ''SFX._FBUF_0001'', ex_fld Floating (PStr ''t0'') [1] [5]),
                      (PStr ''T'', ex_fld Floating (PStr ''t0'') [1] [2])])
        False False True True (5 / 100) True
     = compare_2_files (1 / 1000) (ex_epygram (\<lambda>t r. [])) ex_formatting
        (ex_resource [(PStr ''SFX._FBUF_0001'', ex_fld Floating (PStr ''t0'') [1] [5]),
                      (PStr ''T'', ex_fld Floating (PStr ''t0'') [1] [2])])
        (ex_resource [(PStr ''SFX._FBUF_0001'', ex_fld Floating (PStr ''t0'') [1] [5]),
                      (PStr ''T'', ex_fld Floating (PStr ''t0'') [1] [2])])
        False False True True (5 / 100) True
   \<and> map_sum id (\<lambda>comp. (comp_Validated comp, Bit_reproducible comp, New_fields comp,
                          Lost_fields comp, Unable_to_compare_fields comp))
       (compare_2_files (1 / 1000) (ex_epygram (\<lambda>t r. [])) ex_formatting
        (ex_resource [(PStr ''SFX._FBUF_0001'', ex_fld Floating (PStr ''t0'') [1] [1]),
                      (PStr ''T'', ex_fld Floating (PStr ''t0'') [1] [2])])
        (ex_resource [(PStr ''SFX._FBUF_0001'', ex_fld Floating (PStr ''t0'') [1] [5]),
                      (PStr ''T'', ex_fld Floating (PStr ''t0'') [1] [2])])
        False False True True (5 / 100) True)
     = Inr (True, True, None, None, None)"
proof -
  let ?t' = "ex_resource [(PStr ''SFX._FBUF_0001'', ex_fld Floating (PStr ''t0'') [1] [1]),
                      (PStr ''T'', ex_fld Floating (PStr ''t0'') [1] [2])]"
  let ?t = "ex_resource [(PStr ''SFX._FBUF_0001'', ex_fld Floating (PStr ''t0'') [1] [5]),
                      (PStr ''T'', ex_fld Floating (PStr ''t0'') [1] [2])]"
  have i: "ignore_field (PStr ''SFX._FBUF_0001'')" by (simp add: ignore_field_def)
  have h: "listfields ?t' = listfields ?t" "listfields ?t = listfields ?t"
    "\<forall>f. \<not> ignore_field f \<longrightarrow> readfield ?t' f = readfield ?t f \<and> readfield ?t f = readfield ?t f"
    using i by (auto simp: ex_resource_def)
  have e: "map_sum id (\<lambda>comp. (comp_Validated comp, Bit_reproducible comp, New_fields comp,
                          Lost_fields comp, Unable_to_compare_fields comp))
       (compare_2_files (1 / 1000) (ex_epygram (\<lambda>t r. [])) ex_formatting ?t' ?t
          False False True True (5 / 100) True) = Inr (True, True, None, None, None)"
    by (simp add: fields_eval_defs)
  from C6_ignored_fields_are_not_compared[OF h, of "1 / 1000" "ex_epygram (\<lambda>t r. [])" ex_formatting
      False False True True "5 / 100" True] i e
  show ?thesis by simp
qed

text \<open>
  C6 as stated fails for an ignored field present in the test file only: it is listed
  in \<^verbatim>\<open>'New fields'\<close> and \<^verbatim>\<open>'Validated'\<close> is False.
\<close>

theorem C6_orphan_counterexample:
  "ignore_field (PStr ''SFX._FBUF_0001'')
   \<and> map_sum id (\<lambda>comp. (New_fields comp, comp_Validated comp))
        (compare_2_files (1 / 1000) (ex_epygram (\<lambda>t r. [])) ex_formatting
           (ex_resource [(PStr ''SFX._FBUF_0001'', ex_fld Floating (PStr ''t0'') [2] [0, 1])])
           (ex_resource [])
           False False True True (5 / 100) True)
     = Inr (Some [PStr ''SFX._FBUF_0001''], False)"
  by (simp add: fields_eval_defs)

text \<open>
  C9. The accumulator that \<^verbatim>\<open>compare_2_fields\<close> returns is at least the one it was
  given; and over the fields of one file pair the loop of \<^verbatim>\<open>compare_2_files\<close> hands
  the accumulator from one field to the next: running it on \<open>fs1 @ fs2\<close> is running
  it on \<open>fs1\<close> and then on \<open>fs2\<close> from the state reached, with the maximum never
  decreasing.
\<close>

theorem C9_running_maximum:
  "(\<forall>st m'. compare_2_fields EPSILON ep t r fid m im vb thr = Inr (st, m') \<longrightarrow> m \<le> m')
   \<and> (\<forall>x2. fields_loop EPSILON ep fm t r im hide thr fatal (fs1 @ fs2) (d, m, u) = Inr x2 \<longrightarrow>
        (\<exists>x1. fields_loop EPSILON ep fm t r im hide thr fatal fs1 (d, m, u) = Inr x1
              \<and> fields_loop EPSILON ep fm t r im hide thr fatal fs2 x1 = Inr x2
              \<and> m \<le> fst (snd x1) \<and> fst (snd x1) \<le> fst (snd x2)))"
proof (intro conjI allI impI)
  fix st m'
  assume "compare_2_fields EPSILON ep t r fid m im vb thr = Inr (st, m')"
  then show "m \<le> m'" by (rule compare_2_fields_mono)
next
  fix x2
  assume a: "fields_loop EPSILON ep fm t r im hide thr fatal (fs1 @ fs2) (d, m, u) = Inr x2"
  then obtain x1 where 1: "fields_loop EPSILON ep fm t r im hide thr fatal fs1 (d, m, u) = Inr x1"
    and 2: "fields_loop EPSILON ep fm t r im hide thr fatal fs2 x1 = Inr x2"
    by (auto simp: fields_loop_append and_then_Inr)
  obtain d1 m1 u1 where x1: "x1 = (d1, m1, u1)" by (cases x1)
  obtain d2 m2 u2 where x2: "x2 = (d2, m2, u2)" by (cases x2)
  from 1 x1 have "m \<le> m1" by (auto dest: fields_loop_mono)
  moreover from 2 x1 x2 have "m1 \<le> m2" by (auto dest: fields_loop_mono)
  ultimately show "\<exists>x1. fields_loop EPSILON ep fm t r im hide thr fatal fs1 (d, m, u) = Inr x1
              \<and> fields_loop EPSILON ep fm t r im hide thr fatal fs2 x1 = Inr x2
              \<and> m \<le> fst (snd x1) \<and> fst (snd x1) \<le> fst (snd x2)"
    using 1 2 x1 x2 by auto
qed

text \<open>
  Two fields with normalized errors 1/2 and 2: the maximum goes from 0 to 1/2 to 2.
\<close>

theorem C9_running_maximum_witness:
  "map_sum id snd
     (compare_2_fields (1 / 1000)
        (ex_epygram (\<lambda>t r. [(''errmax'', hd (data t) - hd (data r))]))
        (ex_resource [(PStr ''A'', ex_fld Floating (PStr ''t0'') [1] [1 / 2]),
                      (PStr ''B'', ex_fld Floating (PStr ''t0'') [1] [2])])
        (ex_resource [(PStr ''A'', ex_fld Floating (PStr ''t0'') [1] [0]),
                      (PStr ''B'', ex_fld Floating (PStr ''t0'') [1] [0])])
        (PStr ''A'') (1 / 4) False True (5 / 100))
     = Inr (1 / 2)
   \<and> (1 / 4 :: real) \<le> 1 / 2
   \<and> map_sum id (\<lambda>x. fst (snd x))
       (fields_loop (1 / 1000)
          (ex_epygram (\<lambda>t r. [(''errmax'', hd (data t) - hd (data r))])) ex_formatting
          (ex_resource [(PStr ''A'', ex_fld Floating (PStr ''t0'') [1] [1 / 2]),
                        (PStr ''B'', ex_fld Floating (PStr ''t0'') [1] [2])])
          (ex_resource [(PStr ''A'', ex_fld Floating (PStr ''t0'') [1] [0]),
                        (PStr ''B'', ex_fld Floating (PStr ''t0'') [1] [0])])
          False True (5 / 100) True [PStr ''A''] ([], 0, []))
     = Inr (1 / 2)
   \<and> map_sum id (\<lambda>x. fst (snd x))
       (fields_loop (1 / 1000)
          (ex_epygram (\<lambda>t r. [(''errmax'', hd (data t) - hd (data r))])) ex_formatting
          (ex_resource [(PStr ''A'', ex_fld Floating (PStr ''t0'') [1] [1 / 2]),
                        (PStr ''B'', ex_fld Floating (PStr ''t0'') [1] [2])])
          (ex_resource [(PStr ''A'', ex_fld Floating (PStr ''t0'') [1] [0]),
                        (PStr ''B'', ex_fld Floating (PStr ''t0'') [1] [0])])
          False True (5 / 100) True ([PStr ''A''] @ [PStr ''B'']) ([], 0, []))
     = Inr 2
   \<and> (0 :: real) \<le> 1 / 2 \<and> (1 / 2 :: real) \<le> 2"
  using C9_running_maximum[of "1 / 1000"
      "ex_epygram (\<lambda>t r. [(''errmax'', hd (data t) - hd (data r))])"
      "ex_resource [(PStr ''A'', ex_fld Floating (PStr ''t0'') [1] [1 / 2]),
                    (PStr ''B'', ex_fld Floating (PStr ''t0'') [1] [2])]"
      "ex_resource [(PStr ''A'', ex_fld Floating (PStr ''t0'') [1] [0]),
                    (PStr ''B'', ex_fld Floating (PStr ''t0'') [1] [0])]"
      "PStr ''A''" "1 / 4" False True "5 / 100" ex_formatting True True
      "[PStr ''A'']" "[PStr ''B'']" "[]" "[]"]
  by (simp add: fields_eval_defs)

text \<open>
  C10. When every field common to the two files is an ignored one (or there is none),
  \<^verbatim>\<open>compare_2_files\<close> returns, with an empty \<^verbatim>\<open>'Common fields differences'\<close>,
  \<^verbatim>\<open>'Bit-reproducible'\<close> True, and \<^verbatim>\<open>'Validated'\<close> True when
  \<^verbatim>\<open>ignore_orphan_fields\<close> is on.
\<close>

theorem C10_no_processed_field:
  assumes "\<forall>f\<in>set (listfields t). f \<in> set (listfields r) \<longrightarrow> ignore_field f"
  shows "\<exists>comp. compare_2_files EPSILON ep fm t r ignore_meta ignore_orphan_fields
                   hide_bit_repro_fields validate_if_bit_repro_only thr fatal_exceptions = Inr comp
           \<and> Common_fields_differences comp = []
           \<and> Bit_reproducible comp
           \<and> (ignore_orphan_fields \<longrightarrow> comp_Validated comp)"
proof -
  from common_fields_all_ignored[OF assms] obtain fs where
    fs: "common_fields t r = Inr fs" "list_all ignore_field fs" by blast
  show ?thesis
    unfolding compare_2_files_alt
    by (simp add: fs fields_loop_all_ignored and_then_def)
qed

text \<open>
  Two files whose only common field is \<^verbatim>\<open>SFX._FBUF_0001\<close>, each with an orphan.
\<close>

theorem C10_no_processed_field_witness:
  "map_sum id (\<lambda>comp. (Common_fields_differences comp, Bit_reproducible comp, comp_Validated comp,
                        New_fields comp, Lost_fields comp))
     (compare_2_files (1 / 1000) (ex_epygram (\<lambda>t r. [])) ex_formatting
        (ex_resource [(PStr ''SFX._FBUF_0001'', ex_fld Floating (PStr ''t0'') [1] [1]),
                      (PStr ''T'', ex_fld Floating (PStr ''t0'') [1] [2])])
        (ex_resource [(PStr ''SFX._FBUF_0001'', ex_fld Floating (PStr ''t0'') [1] [5]),
                      (PStr ''Q'', ex_fld Floating (PStr ''t0'') [1] [2])])
        False True True True (5 / 100) True)
   = Inr ([], True, True, Some [PStr ''T''], Some [PStr ''Q''])"
proof -
  let ?t = "ex_resource [(PStr ''SFX._FBUF_0001'', ex_fld Floating (PStr ''t0'') [1] [1]),
                      (PStr ''T'', ex_fld Floating (PStr ''t0'') [1] [2])]"
  let ?r = "ex_resource [(PStr ''SFX._FBUF_0001'', ex_fld Floating (PStr ''t0'') [1] [5]),
                      (PStr ''Q'', ex_fld Floating (PStr ''t0'') [1] [2])]"
  have h: "\<forall>f\<in>set (listfields ?t). f \<in> set (listfields ?r) \<longrightarrow> ignore_field f"
    by (simp add: ex_resource_def ignore_field_def)
  from C10_no_processed_field[OF h, of "1 / 1000" "ex_epygram (\<lambda>t r. [])" ex_formatting
      False True True True "5 / 100" True]
  obtain comp where c: "compare_2_files (1 / 1000) (ex_epygram (\<lambda>t r. [])) ex_formatting ?t ?r
                          False True True True (5 / 100) True = Inr comp"
    and p: "Common_fields_differences comp = []" "Bit_reproducible comp" "comp_Validated comp"
    by auto
  have "map_sum id (\<lambda>comp. (New_fields comp, Lost_fields comp))
          (compare_2_files (1 / 1000) (ex_epygram (\<lambda>t r. [])) ex_formatting ?t ?r
             False True True True (5 / 100) True) = Inr (Some [PStr ''T''], Some [PStr ''Q''])"
    by (simp add: fields_eval_defs)
  with p show ?thesis unfolding c by simp
qed

end
